theory Spec2Isabelle
  imports Complex_Main "HOL-Library.Char_ord" "HOL-Library.List_Lexorder"
    "HOL-Library.AList" "HOL-Library.Multiset" "HOL-Library.Log_Nat"
begin

section \<open>JavaScript values\<close>

text \<open>
  A JavaScript number is an IEEE-754 double. The model keeps the special values apart and
  gives every other double by its exact (rational) value; \<open>Fin 0\<close> is \<open>+0\<close>.
\<close>

datatype jsnum = NaN | PosInf | NegInf | NegZero | Fin rat

text \<open>
  Envelopes are typed \<open>any\<close> in the source. An object is the list of its own enumerable
  properties in insertion order; a key bound twice in the list reads as its first binding.
\<close>

datatype json =
    JUndefined
  | JNull
  | JBool bool
  | JNum jsnum
  | JStr string
  | JArr "json list"
  | JObj "(string \<times> json) list"

text \<open>Errors thrown by the canonical serializer (\<open>throw new Error(...)\<close> in \<open>jcsSerialize\<close>).\<close>

datatype js_error = NonFiniteNumber | NonIntegerNumber | UnsafeInteger | UndefinedForbidden

text \<open>
  What the runtime takes from outside the repository's sources: SHA-256 with hex digest
  (\<open>node:crypto\<close>), the built-in \<open>JSON.stringify\<close>, and the Ajv validators compiled from
  the schema pack, indexed by record type (\<open>None\<close>: the envelope validates;
  \<open>Some errs\<close>: it does not, and \<open>errs\<close> are the Ajv error objects, \<open>validate.errors ?? []\<close>).
\<close>

record deps =
  sha256_hex :: "string \<Rightarrow> string"
  JSON_stringify :: "json \<Rightarrow> string"
  ajv_validators :: "string \<Rightarrow> json \<Rightarrow> json list option"

subsection \<open>Property access\<close>

definition Object_keys :: "(string \<times> json) list \<Rightarrow> string list" where
  "Object_keys kvs = remdups (map fst kvs)"

text \<open>\<open>v?.k\<close>: \<open>undefined\<close> on anything that has no such own property.\<close>

fun get_field :: "json \<Rightarrow> string \<Rightarrow> json" where
  "get_field (JObj kvs) k = (case map_of kvs k of Some v \<Rightarrow> v | None \<Rightarrow> JUndefined)"
| "get_field _ k = JUndefined"

subsection \<open>Number predicates\<close>

fun Number_isFinite :: "jsnum \<Rightarrow> bool" where
  "Number_isFinite (Fin q) = True"
| "Number_isFinite NegZero = True"
| "Number_isFinite _ = False"

fun num_value :: "jsnum \<Rightarrow> rat" where
  "num_value (Fin q) = q"
| "num_value _ = 0"

definition Number_isInteger :: "jsnum \<Rightarrow> bool" where
  "Number_isInteger v = (Number_isFinite v \<and> of_int \<lfloor>num_value v\<rfloor> = num_value v)"

definition MAX_SAFE_INTEGER :: int where
  "MAX_SAFE_INTEGER = 2 ^ 53 - 1"

definition Number_isSafeInteger :: "jsnum \<Rightarrow> bool" where
  "Number_isSafeInteger v = (Number_isInteger v \<and> \<bar>\<lfloor>num_value v\<rfloor>\<bar> \<le> MAX_SAFE_INTEGER)"

text \<open>\<open>String(v)\<close> on a safe integer: its decimal digits, with a minus sign when negative.\<close>

fun digit_char :: "int \<Rightarrow> char" where
  "digit_char d = ''0123456789'' ! nat d"

function int_digits :: "int \<Rightarrow> string" where
  "int_digits n =
     (if n < 10 then [digit_char n]
      else int_digits (n div 10) @ [digit_char (n mod 10)])"
  by pat_completeness auto
termination
  by (relation "measure nat") auto

definition String_of_int :: "int \<Rightarrow> string" where
  "String_of_int i = (if i < 0 then ''-'' @ int_digits (- i) else int_digits i)"

section \<open>Canonical codec (flowversion-envelope.js)\<close>

fun sequence_results :: "(js_error + string) list \<Rightarrow> js_error + string list" where
  "sequence_results [] = Inr []"
| "sequence_results (r # rs) =
     (case r of
        Inl e \<Rightarrow> Inl e
      | Inr s \<Rightarrow> (case sequence_results rs of Inl e \<Rightarrow> Inl e | Inr ss \<Rightarrow> Inr (s # ss)))"

fun join :: "string \<Rightarrow> string list \<Rightarrow> string" where
  "join sep [] = []"
| "join sep [s] = s"
| "join sep (s # t # ss) = s @ sep @ join sep (t # ss)"

definition jcs_number :: "jsnum \<Rightarrow> js_error + string" where
  "jcs_number v =
     (if \<not> Number_isFinite v then Inl NonFiniteNumber
      else if \<not> Number_isInteger v then Inl NonIntegerNumber
      else if \<not> Number_isSafeInteger v then Inl UnsafeInteger
      else if v = NegZero then Inr ''0''
      else Inr (String_of_int \<lfloor>num_value v\<rfloor>))"

lemma size_map_of:
  "map_of kvs k = Some v \<Longrightarrow> size v < Suc (size_list (size_prod (\<lambda>_. 0) size) kvs)"
  by (induction kvs) (auto split: if_splits)

lemma size_in_set: "x \<in> set vs \<Longrightarrow> size x \<le> size_list size vs"
  by (induction vs) auto

text \<open>
  \<open>jcsSerialize\<close>: the object case walks \<open>Object.keys(obj).sort()\<close> and stops at the first
  member that throws; \<open>jcs_members\<close> is that loop, returning the members it wrote.
\<close>

function (sequential) jcsSerialize :: "deps \<Rightarrow> json \<Rightarrow> js_error + string"
  and jcs_members :: "deps \<Rightarrow> (string \<times> json) list \<Rightarrow> string list \<Rightarrow> js_error + string list"
where
  "jcsSerialize D JNull = Inr ''null''"
| "jcsSerialize D (JBool b) = Inr (if b then ''true'' else ''false'')"
| "jcsSerialize D (JStr s) = Inr (JSON_stringify D (JStr s))"
| "jcsSerialize D (JNum v) = jcs_number v"
| "jcsSerialize D JUndefined = Inl UndefinedForbidden"
| "jcsSerialize D (JArr vs) =
     (case sequence_results (map (jcsSerialize D) vs) of
        Inl e \<Rightarrow> Inl e
      | Inr ss \<Rightarrow> Inr (''['' @ join '','' ss @ '']''))"
| "jcsSerialize D (JObj kvs) =
     (case jcs_members D kvs (sort (Object_keys kvs)) of
        Inl e \<Rightarrow> Inl e
      | Inr ms \<Rightarrow> Inr (''{'' @ join '','' ms @ ''}''))"
| "jcs_members D kvs [] = Inr []"
| "jcs_members D kvs (k # ks) =
     (case map_of kvs k of
        None \<Rightarrow> Inl UndefinedForbidden
      | Some val \<Rightarrow>
          (if val = JUndefined then Inl UndefinedForbidden
           else (case jcsSerialize D val of
                   Inl e \<Rightarrow> Inl e
                 | Inr s \<Rightarrow>
                     (case jcs_members D kvs ks of
                        Inl e \<Rightarrow> Inl e
                      | Inr ms \<Rightarrow> Inr ((JSON_stringify D (JStr k) @ '':'' @ s) # ms)))))"
  by pat_completeness auto
termination
  by (relation "inv_image (less_than <*lex*> less_than)
       (\<lambda>x. case x of
               Inl (D, v) \<Rightarrow> (2 * size v + 1, 0)
             | Inr (D, kvs, ks) \<Rightarrow> (2 * size (JObj kvs), length ks))")
     (auto dest: size_map_of size_in_set simp: less_Suc_eq_le)

definition canonicalizeEnvelope :: "deps \<Rightarrow> json \<Rightarrow> js_error + string" where
  "canonicalizeEnvelope D v = jcsSerialize D v"

definition hashEnvelope :: "deps \<Rightarrow> json \<Rightarrow> js_error + string" where
  "hashEnvelope D envelope =
     (case canonicalizeEnvelope D envelope of
        Inl e \<Rightarrow> Inl e
      | Inr canonical \<Rightarrow> Inr (sha256_hex D canonical))"

subsection \<open>Equality as JSON data\<close>

text \<open>
  Two values are equal as JSON data when they are the same atom, arrays of pairwise equal
  elements, or objects with the same key set whose members are equal key by key, whatever
  the insertion order.
\<close>

function (sequential) json_eq :: "json \<Rightarrow> json \<Rightarrow> bool" where
  "json_eq (JObj a) (JObj b) =
     (set (map fst a) = set (map fst b) \<and>
      (\<forall>k \<in> set (map fst a).
         (case map_of a k of
            None \<Rightarrow> False
          | Some v \<Rightarrow> (case map_of b k of None \<Rightarrow> False | Some w \<Rightarrow> json_eq v w))))"
| "json_eq (JArr xs) (JArr ys) = list_all2 json_eq xs ys"
| "json_eq (JObj a) y = False"
| "json_eq x (JObj b) = False"
| "json_eq (JArr xs) y = False"
| "json_eq x (JArr ys) = False"
| "json_eq x y = (x = y)"
  by pat_completeness auto
termination
  by (relation "measure (\<lambda>(x, y). size x)")
     (auto dest: size_map_of size_in_set simp: less_Suc_eq_le)

subsection \<open>The safe range as the specification words it\<close>

text \<open>
  An integer fits a signed 64-bit representation, and is a double without loss when its
  binary expansion has at most 53 significant bits (and it is below \<open>2 ^ 1024\<close>).
\<close>

definition fits_int64 :: "int \<Rightarrow> bool" where
  "fits_int64 n = (- (2 ^ 63) \<le> n \<and> n < 2 ^ 63)"

definition double_exact :: "int \<Rightarrow> bool" where
  "double_exact n =
     (bitlen \<bar>n\<bar> \<le> 1024 \<and> \<bar>n\<bar> mod 2 ^ nat (bitlen \<bar>n\<bar> - 53) = 0)"

definition spec_safe_range :: "jsnum \<Rightarrow> bool" where
  "spec_safe_range v =
     (Number_isInteger v \<and> fits_int64 \<lfloor>num_value v\<rfloor> \<and> double_exact \<lfloor>num_value v\<rfloor>)"

section \<open>Failure taxonomy (error-classification.js)\<close>

text \<open>
  \<open>FailureClass\<close>, \<open>AcceptClass\<close> and the replay-specific classes of \<open>ReplayFailure\<close>
  (the source writes them as string constants; \<open>REPLAY_NOT_FOUND\<close> is the literal the
  ledger-based forensic engine uses for an empty chain).
\<close>

datatype classification =
    ACCEPT
  | SCHEMA_REJECT
  | HASH_MISMATCH
  | MISSING_PREREQ
  | TRACE_VIOLATION
  | UNAUTHORIZED_EXECUTION
  | RECORD_TYPE_FORBIDDEN
  | REPLAY_CHAIN_NOT_FOUND
  | REPLAY_POLICY_PATH_MISMATCH
  | REPLAY_VARIANCE_VIOLATION
  | REPLAY_NOT_FOUND

definition NON_PERSISTENT_FAILURES :: "classification set" where
  "NON_PERSISTENT_FAILURES = {SCHEMA_REJECT}"

definition PERSIST_REJECTED_ATTEMPT :: "classification set" where
  "PERSIST_REJECTED_ATTEMPT =
     {HASH_MISMATCH, MISSING_PREREQ, TRACE_VIOLATION, UNAUTHORIZED_EXECUTION}"

text \<open>
  \<open>classifySchemaErrorKind\<close> reads the first Ajv error object. Ajv's \<open>keyword\<close> is always a
  string, so a keyword that is not a non-empty string counts as missing.
\<close>

definition ends_with :: "string \<Rightarrow> string \<Rightarrow> bool" where
  "ends_with s suffix = (length suffix \<le> length s \<and> drop (length s - length suffix) s = suffix)"

definition classifySchemaErrorKind :: "json list \<Rightarrow> string" where
  "classifySchemaErrorKind ajvErrors =
     (case ajvErrors of
        [] \<Rightarrow> ''schema_violation.unknown''
      | e # _ \<Rightarrow>
          (let kw = get_field e ''keyword'' in
           if kw = JStr ''required'' then
             (let missing = get_field (get_field e ''params'') ''missingProperty'';
                  path = get_field e ''instancePath'' in
              if missing = JStr ''trace_id'' \<and>
                 (case path of JStr p \<Rightarrow> p = ''/trace'' \<or> ends_with p ''/trace'' | _ \<Rightarrow> False)
              then ''schema_violation.trace_context.missing_trace_id''
              else (case missing of
                      JStr m \<Rightarrow> ''schema_violation.required.'' @ m
                    | _ \<Rightarrow> ''schema_violation.required''))
           else if kw = JStr ''additionalProperties'' then ''schema_violation.additional_properties''
           else if kw = JStr ''type'' then ''schema_violation.type''
           else if kw = JStr ''pattern'' then ''schema_violation.pattern''
           else if kw = JStr ''enum'' then ''schema_violation.enum''
           else ''schema_violation.'' @
                (case kw of JStr k \<Rightarrow> (if k = [] then ''unknown'' else k) | _ \<Rightarrow> ''unknown'')))"

definition missingPrereqKind :: "string \<Rightarrow> string" where
  "missingPrereqKind prereq =
     (if prereq = ''auth_context'' then ''missing_prereq.auth_context''
      else ''missing_prereq.policy_decision'')"

definition traceViolationKind :: string where
  "traceViolationKind = ''trace_violation.trace_id_mismatch''"

definition unauthorizedKind :: string where
  "unauthorizedKind = ''unauthorized.policy_denied''"

definition hashMismatchKind :: string where
  "hashMismatchKind = ''hash_mismatch.envelope_hash''"

definition recordTypeForbiddenKind :: string where
  "recordTypeForbiddenKind = ''record_type_forbidden''"

section \<open>Schema validation (flowversion-envelope.js)\<close>

definition RECORD_TYPES :: "string list" where
  "RECORD_TYPES = [''auth_context'', ''policy_decision'', ''model_call'', ''tool_call'']"

datatype validation = Valid string | Invalid "json list"

fun validation_ok :: "validation \<Rightarrow> bool" where
  "validation_ok (Valid rt) = True"
| "validation_ok (Invalid errs) = False"

definition validateEnvelope :: "deps \<Rightarrow> json \<Rightarrow> validation" where
  "validateEnvelope D envelope =
     (case envelope of
        JObj kvs \<Rightarrow>
          (case get_field envelope ''record_type'' of
             JStr recordType \<Rightarrow>
               (if recordType \<notin> set RECORD_TYPES then
                  Invalid [JObj [(''keyword'', JStr ''enum''), (''message'', JStr ''unknown record_type''),
                                 (''instancePath'', JStr ''/record_type''),
                                 (''params'', JObj [(''allowedValues'', JArr (map JStr RECORD_TYPES))])]]
                else (case ajv_validators D recordType envelope of
                        None \<Rightarrow> Valid recordType
                      | Some errs \<Rightarrow> Invalid errs))
           | _ \<Rightarrow>
               Invalid [JObj [(''keyword'', JStr ''required''), (''message'', JStr ''missing record_type''),
                              (''instancePath'', JStr []),
                              (''params'', JObj [(''missingProperty'', JStr ''record_type'')])]])
      | _ \<Rightarrow>
          Invalid [JObj [(''keyword'', JStr ''type''), (''message'', JStr ''must be object''),
                         (''instancePath'', JStr [])]])"

section \<open>Artifact store and commit gate (cpo-kernel.js)\<close>

record stored_artifact =
  envelope_hash :: string
  record_type :: string
  envelope :: json
  canonical_json :: string

record stored_rejected_attempt = stored_artifact +
  classification :: classification
  error_kind :: string

text \<open>A stored replay result: \<open>{artifact_hash | artifact_sha256, canonical_json, artifact}\<close>.\<close>

record replay_artifact =
  artifact_hash :: string
  artifact_canonical_json :: string
  artifact :: json

text \<open>
  The store's namespaces are JavaScript \<open>Map\<close>s: association lists in insertion order,
  where \<open>set\<close> on a present key replaces the value in place (\<open>AList.update\<close>).
  \<open>replay_results\<close> is the namespace \<open>Ledger\<close> adds to \<open>ArtifactStore\<close>; \<open>other_artifacts\<close>
  is the one \<open>persistReplayResult\<close> of replay-result-artifact.js attaches to a store.
\<close>

record artifact_store =
  accepted :: "(string \<times> stored_artifact) list"
  rejected_attempts :: "(string \<times> stored_rejected_attempt) list"
  replay_results :: "(string \<times> replay_artifact) list"
  other_artifacts :: "(string \<times> replay_artifact) list"

definition empty_store :: artifact_store where
  "empty_store = \<lparr>accepted = [], rejected_attempts = [], replay_results = [], other_artifacts = []\<rparr>"

text \<open>\<open>getAccepted\<close>: the keys of the map are strings, so any other value finds nothing.\<close>

definition getAccepted :: "artifact_store \<Rightarrow> json \<Rightarrow> stored_artifact option" where
  "getAccepted S envelopeHash =
     (case envelopeHash of JStr h \<Rightarrow> map_of (accepted S) h | _ \<Rightarrow> None)"

definition putAccepted :: "artifact_store \<Rightarrow> stored_artifact \<Rightarrow> artifact_store" where
  "putAccepted S a = S\<lparr>accepted := AList.update (envelope_hash a) a (accepted S)\<rparr>"

definition putRejectedAttempt :: "artifact_store \<Rightarrow> stored_rejected_attempt \<Rightarrow> artifact_store" where
  "putRejectedAttempt S a =
     S\<lparr>rejected_attempts := AList.update (envelope_hash a) a (rejected_attempts S)\<rparr>"

text \<open>
  The outcome of \<open>commit_action\<close>: \<open>{ok: true, classification: ACCEPT, envelope_hash,
  canonical_json}\<close> or \<open>{ok: false, classification, error_kind, computed_envelope_hash?,
  canonical_json?}\<close>.
\<close>

datatype commit_result =
    Accepted string string
  | Rejected classification string "string option" "string option"

fun commit_ok :: "commit_result \<Rightarrow> bool" where
  "commit_ok (Accepted h c) = True"
| "commit_ok (Rejected cl k h c) = False"

fun commit_classification :: "commit_result \<Rightarrow> classification" where
  "commit_classification (Accepted h c) = ACCEPT"
| "commit_classification (Rejected cl k h c) = cl"

fun commit_error_kind :: "commit_result \<Rightarrow> string option" where
  "commit_error_kind (Accepted h c) = None"
| "commit_error_kind (Rejected cl k h c) = Some k"

fun commit_canonical_json :: "commit_result \<Rightarrow> string option" where
  "commit_canonical_json (Accepted h c) = Some c"
| "commit_canonical_json (Rejected cl k h c) = c"

text \<open>
  \<open>===\<close> on two values: primitives compare by value (\<open>NaN\<close> equals nothing, the two zeros
  are equal); arrays and objects compare by reference, which the model does not track, so
  two of them are never \<open>===\<close> here.
\<close>

fun num_strict_eq :: "jsnum \<Rightarrow> jsnum \<Rightarrow> bool" where
  "num_strict_eq NaN y = False"
| "num_strict_eq x NaN = False"
| "num_strict_eq NegZero y = (y = NegZero \<or> y = Fin 0)"
| "num_strict_eq x NegZero = (x = Fin 0)"
| "num_strict_eq x y = (x = y)"

fun strict_eq :: "json \<Rightarrow> json \<Rightarrow> bool" where
  "strict_eq (JNum x) (JNum y) = num_strict_eq x y"
| "strict_eq (JArr xs) y = False"
| "strict_eq (JObj kvs) y = False"
| "strict_eq x y = (x = y)"

definition traceIdOf :: "json \<Rightarrow> json" where
  "traceIdOf env = get_field (get_field env ''trace'') ''trace_id''"

text \<open>\<open>x?.envelope?.trace?.trace_id\<close> and \<open>x?.envelope?.decision?.result\<close> on an optional artifact.\<close>

definition artifact_trace_id :: "stored_artifact option \<Rightarrow> json" where
  "artifact_trace_id a = (case a of None \<Rightarrow> JUndefined | Some x \<Rightarrow> traceIdOf (envelope x))"

definition decision_result :: "json \<Rightarrow> json" where
  "decision_result env = get_field (get_field env ''decision'') ''result''"

definition artifact_decision_result :: "stored_artifact option \<Rightarrow> json" where
  "artifact_decision_result a =
     (case a of None \<Rightarrow> JUndefined | Some x \<Rightarrow> decision_result (envelope x))"

text \<open>The result of \<open>_resolvePrereqs\<close>: \<open>{ok: true, auth_context?, policy_decision?}\<close> or a failure.\<close>

datatype prereqs =
    PrereqsOk "stored_artifact option" "stored_artifact option"
  | PrereqsFail classification string

definition resolvePrereqs :: "artifact_store \<Rightarrow> string \<Rightarrow> json \<Rightarrow> prereqs" where
  "resolvePrereqs S rt env =
     (if rt = ''auth_context'' then PrereqsOk None None
      else if rt = ''policy_decision'' then
        (case getAccepted S (get_field env ''auth_context_envelope_sha256'') of
           None \<Rightarrow> PrereqsFail MISSING_PREREQ (missingPrereqKind ''auth_context'')
         | Some auth \<Rightarrow> PrereqsOk (Some auth) None)
      else if rt = ''model_call'' \<or> rt = ''tool_call'' then
        (case getAccepted S (get_field env ''auth_context_envelope_sha256'') of
           None \<Rightarrow> PrereqsFail MISSING_PREREQ (missingPrereqKind ''auth_context'')
         | Some auth \<Rightarrow>
             (case getAccepted S (get_field env ''policy_decision_envelope_sha256'') of
                None \<Rightarrow> PrereqsFail MISSING_PREREQ (missingPrereqKind ''policy_decision'')
              | Some pd \<Rightarrow> PrereqsOk (Some auth) (Some pd)))
      else PrereqsFail RECORD_TYPE_FORBIDDEN recordTypeForbiddenKind)"

text \<open>\<open>_enforceTraceContinuity\<close> and \<open>_enforceAuthorization\<close>: \<open>None\<close> is \<open>{ok: true}\<close>.\<close>

definition enforceTraceContinuity ::
  "string \<Rightarrow> json \<Rightarrow> stored_artifact option \<Rightarrow> stored_artifact option \<Rightarrow>
   (classification \<times> string) option" where
  "enforceTraceContinuity rt env auth pd =
     (if rt = ''auth_context'' then None
      else (case traceIdOf env of
              JStr traceId \<Rightarrow>
                (if rt = ''policy_decision'' then
                   (if \<not> strict_eq (artifact_trace_id auth) (JStr traceId)
                    then Some (TRACE_VIOLATION, traceViolationKind) else None)
                 else if rt = ''model_call'' \<or> rt = ''tool_call'' then
                   (if \<not> strict_eq (artifact_trace_id auth) (JStr traceId) \<or>
                       \<not> strict_eq (artifact_trace_id pd) (JStr traceId)
                    then Some (TRACE_VIOLATION, traceViolationKind) else None)
                 else None)
            | _ \<Rightarrow> Some (TRACE_VIOLATION, traceViolationKind)))"

definition enforceAuthorization ::
  "string \<Rightarrow> stored_artifact option \<Rightarrow> (classification \<times> string) option" where
  "enforceAuthorization rt pd =
     (if rt \<noteq> ''model_call'' \<and> rt \<noteq> ''tool_call'' then None
      else if \<not> strict_eq (artifact_decision_result pd) (JStr ''allow'')
      then Some (UNAUTHORIZED_EXECUTION, unauthorizedKind)
      else None)"

definition persistRejectedAttemptIfRequired ::
  "artifact_store \<Rightarrow> stored_rejected_attempt \<Rightarrow> artifact_store" where
  "persistRejectedAttemptIfRequired S x =
     (if classification x \<in> NON_PERSISTENT_FAILURES then S
      else if classification x \<notin> PERSIST_REJECTED_ATTEMPT then S
      else putRejectedAttempt S x)"

definition rejected_attempt ::
  "classification \<Rightarrow> string \<Rightarrow> string \<Rightarrow> json \<Rightarrow> string \<Rightarrow> string \<Rightarrow> stored_rejected_attempt" where
  "rejected_attempt cl kind rt env canonical h =
     \<lparr>envelope_hash = h, record_type = rt, envelope = env, canonical_json = canonical,
      classification = cl, error_kind = kind\<rparr>"

text \<open>
  \<open>commit_action\<close>, in the source's fixed order. Canonicalization runs outside any
  \<open>try\<close>, so an error of the serializer leaves the call by exception (\<open>Inl\<close>), before the
  store is touched.
\<close>

definition commit_action ::
  "deps \<Rightarrow> artifact_store \<Rightarrow> string \<Rightarrow> string \<Rightarrow> json \<Rightarrow>
   js_error + (commit_result \<times> artifact_store)" where
  "commit_action D S rt declared_envelope_hash env =
     (if rt \<notin> set RECORD_TYPES then
        Inr (Rejected RECORD_TYPE_FORBIDDEN recordTypeForbiddenKind None None, S)
      else (case validateEnvelope D env of
        Invalid errs \<Rightarrow> Inr (Rejected SCHEMA_REJECT (classifySchemaErrorKind errs) None None, S)
      | Valid vrt \<Rightarrow>
        (if \<not> strict_eq (get_field env ''record_type'') (JStr rt) then
           Inr (Rejected SCHEMA_REJECT ''schema_violation.record_type_mismatch'' None None, S)
         else (case canonicalizeEnvelope D env of
           Inl e \<Rightarrow> Inl e
         | Inr canonical \<Rightarrow>
           (case hashEnvelope D env of
              Inl e \<Rightarrow> Inl e
            | Inr computed_envelope_hash \<Rightarrow>
              (if declared_envelope_hash \<noteq> computed_envelope_hash then
                 Inr (Rejected HASH_MISMATCH hashMismatchKind
                        (Some computed_envelope_hash) (Some canonical),
                      persistRejectedAttemptIfRequired S
                        (rejected_attempt HASH_MISMATCH hashMismatchKind rt env canonical
                           computed_envelope_hash))
               else (case resolvePrereqs S rt env of
                  PrereqsFail cl kind \<Rightarrow>
                    Inr (Rejected cl kind (Some computed_envelope_hash) (Some canonical),
                         persistRejectedAttemptIfRequired S
                           (rejected_attempt cl kind rt env canonical computed_envelope_hash))
                | PrereqsOk auth pd \<Rightarrow>
                    (case enforceTraceContinuity rt env auth pd of
                       Some (cl, kind) \<Rightarrow>
                         Inr (Rejected cl kind (Some computed_envelope_hash) (Some canonical),
                              persistRejectedAttemptIfRequired S
                                (rejected_attempt cl kind rt env canonical computed_envelope_hash))
                     | None \<Rightarrow>
                         (case enforceAuthorization rt pd of
                            Some (cl, kind) \<Rightarrow>
                              Inr (Rejected cl kind (Some computed_envelope_hash) (Some canonical),
                                   persistRejectedAttemptIfRequired S
                                     (rejected_attempt cl kind rt env canonical
                                        computed_envelope_hash))
                          | None \<Rightarrow>
                              Inr (Accepted computed_envelope_hash canonical,
                                   putAccepted S
                                     \<lparr>envelope_hash = computed_envelope_hash, record_type = rt,
                                      envelope = env, canonical_json = canonical\<rparr>))))))))))"

section \<open>Replay result emission\<close>

text \<open>
  \<open>persistReplayResult\<close> of replay-result-artifact.js: seal the result (canonical JSON and
  its hash) and set it in the store's \<open>other_artifacts\<close> map; it returns
  \<open>{artifact_sha256, canonical_json}\<close>.
\<close>

definition sealReplayResult :: "deps \<Rightarrow> json \<Rightarrow> js_error + (string \<times> string)" where
  "sealReplayResult D result =
     (case canonicalizeEnvelope D result of
        Inl e \<Rightarrow> Inl e
      | Inr canonical \<Rightarrow>
          (case hashEnvelope D result of
             Inl e \<Rightarrow> Inl e
           | Inr sha256 \<Rightarrow> Inr (canonical, sha256)))"

definition persistReplayResult ::
  "deps \<Rightarrow> artifact_store \<Rightarrow> json \<Rightarrow> js_error + ((string \<times> string) \<times> artifact_store)" where
  "persistReplayResult D S result =
     (case sealReplayResult D result of
        Inl e \<Rightarrow> Inl e
      | Inr (canonical, sha256) \<Rightarrow>
          Inr ((sha256, canonical),
               S\<lparr>other_artifacts :=
                    AList.update sha256
                      \<lparr>artifact_hash = sha256, artifact_canonical_json = canonical,
                       artifact = result\<rparr>
                      (other_artifacts S)\<rparr>))"

text \<open>
  \<open>persistReplayResult\<close> of the ledger-based engines: \<open>ledger.putReplayResult(artifact_hash,
  canonical_json, result)\<close>; it returns \<open>{artifact_hash, canonical_json, artifact}\<close>.
\<close>

definition putReplayResult :: "artifact_store \<Rightarrow> string \<Rightarrow> string \<Rightarrow> json \<Rightarrow> artifact_store" where
  "putReplayResult S h canonical a =
     S\<lparr>replay_results :=
          AList.update h
            \<lparr>artifact_hash = h, artifact_canonical_json = canonical, artifact = a\<rparr>
            (replay_results S)\<rparr>"

definition ledger_persistReplayResult ::
  "deps \<Rightarrow> artifact_store \<Rightarrow> json \<Rightarrow> js_error + (replay_artifact \<times> artifact_store)" where
  "ledger_persistReplayResult D ledger result =
     (case canonicalizeEnvelope D result of
        Inl e \<Rightarrow> Inl e
      | Inr canonical \<Rightarrow>
          (case hashEnvelope D result of
             Inl e \<Rightarrow> Inl e
           | Inr h \<Rightarrow>
               Inr (\<lparr>artifact_hash = h, artifact_canonical_json = canonical, artifact = result\<rparr>,
                    putReplayResult ledger h canonical result)))"

section \<open>Stores the gate and the replay emitters can build\<close>


text \<open>
  A run of gate calls \<open>(record_type, declared_hash, envelope)\<close>; a call that throws leaves
  the store as it was.
\<close>

definition commit_step :: "deps \<Rightarrow> artifact_store \<Rightarrow> string \<times> string \<times> json \<Rightarrow> artifact_store" where
  "commit_step D S c =
     (case c of (rt, declared, env) \<Rightarrow>
        (case commit_action D S rt declared env of Inl e \<Rightarrow> S | Inr (res, S') \<Rightarrow> S'))"

fun commit_all :: "deps \<Rightarrow> artifact_store \<Rightarrow> (string \<times> string \<times> json) list \<Rightarrow> artifact_store" where
  "commit_all D S [] = S"
| "commit_all D S (c # cs) = commit_all D (commit_step D S c) cs"

section \<open>Content addressing of a store\<close>




section \<open>Trace index and resolver (replay/replay-index.js)\<close>

datatype ledger_status = accepted_status | rejected_attempt_status

text \<open>\<open>LedgerEnvelopeArtifact\<close>: a stored artifact with its ledger status.\<close>

record ledger_artifact = stored_artifact +
  ledger_status :: ledger_status
  artifact_classification :: "classification option"
  artifact_error_kind :: "string option"

definition getTraceId :: "json \<Rightarrow> json" where
  "getTraceId env = get_field (get_field env ''trace'') ''trace_id''"

definition recordRank :: "string \<Rightarrow> int" where
  "recordRank rt =
     (if rt = ''auth_context'' then 0
      else if rt = ''policy_decision'' then 1
      else if rt = ''model_call'' \<or> rt = ''tool_call'' then 2
      else 9)"

text \<open>\<open>typeof x === 'number' ? x : 0\<close>.\<close>

definition number_or_zero :: "json \<Rightarrow> jsnum" where
  "number_or_zero x = (case x of JNum v \<Rightarrow> v | _ \<Rightarrow> Fin 0)"

definition timeKey :: "'a ledger_artifact_scheme \<Rightarrow> jsnum" where
  "timeKey a =
     (if record_type a = ''auth_context'' \<or> record_type a = ''policy_decision''
      then number_or_zero (get_field (envelope a) ''ts_ms'')
      else if record_type a = ''model_call'' \<or> record_type a = ''tool_call''
      then number_or_zero (get_field (envelope a) ''started_at_ms'')
      else Fin 0)"

definition accepted_entry :: "string \<times> stored_artifact \<Rightarrow> ledger_artifact" where
  "accepted_entry p =
     \<lparr>envelope_hash = fst p, record_type = record_type (snd p), envelope = envelope (snd p),
      canonical_json = canonical_json (snd p), ledger_status = accepted_status,
      artifact_classification = None, artifact_error_kind = None\<rparr>"

definition rejected_entry :: "string \<times> stored_rejected_attempt \<Rightarrow> ledger_artifact" where
  "rejected_entry p =
     \<lparr>envelope_hash = fst p, record_type = record_type (snd p), envelope = envelope (snd p),
      canonical_json = canonical_json (snd p), ledger_status = rejected_attempt_status,
      artifact_classification = Some (classification (snd p)),
      artifact_error_kind = Some (error_kind (snd p))\<rparr>"

text \<open>The inner \<open>add\<close> of \<open>buildTraceIndex\<close>: append to the bucket of the artifact's trace.\<close>

definition index_add ::
  "(string \<times> ledger_artifact list) list \<Rightarrow> ledger_artifact \<Rightarrow> (string \<times> ledger_artifact list) list"
  where
  "index_add idx art =
     (case getTraceId (envelope art) of
        JStr tid \<Rightarrow>
          (if length tid = 0 then idx
           else AList.update tid
                  ((case map_of idx tid of Some arr \<Rightarrow> arr | None \<Rightarrow> []) @ [art]) idx)
      | _ \<Rightarrow> idx)"

definition buildTraceIndex ::
  "artifact_store \<Rightarrow> bool \<Rightarrow> (string \<times> ledger_artifact list) list" where
  "buildTraceIndex store includeRejected =
     (let idx = foldl index_add [] (map accepted_entry (accepted store))
      in if includeRejected
         then foldl index_add idx (map rejected_entry (rejected_attempts store))
         else idx)"

text \<open>
  Subtraction of two numbers as a sort comparator returns it: only the sign of the result
  is read, and the rounded difference of two doubles has the sign of the exact one.
\<close>

fun js_minus :: "jsnum \<Rightarrow> jsnum \<Rightarrow> jsnum" where
  "js_minus NaN y = NaN"
| "js_minus x NaN = NaN"
| "js_minus PosInf PosInf = NaN"
| "js_minus NegInf NegInf = NaN"
| "js_minus PosInf y = PosInf"
| "js_minus NegInf y = NegInf"
| "js_minus x PosInf = NegInf"
| "js_minus x NegInf = PosInf"
| "js_minus x y = Fin (num_value x - num_value y)"

text \<open>
  \<open>a.localeCompare(b)\<close> on envelope hashes. The hashes are lowercase hex digests of one
  length, on which the locale's collation is the order of the code units.
\<close>

definition localeCompare :: "string \<Rightarrow> string \<Rightarrow> int" where
  "localeCompare a b = (if a < b then - 1 else if a = b then 0 else 1)"

text \<open>The comparator \<open>resolveTraceChain\<close> passes to \<open>sort\<close>.\<close>

definition compareArtifacts :: "ledger_artifact \<Rightarrow> ledger_artifact \<Rightarrow> jsnum" where
  "compareArtifacts a b =
     (let ra = recordRank (record_type a); rb = recordRank (record_type b) in
      if ra \<noteq> rb then Fin (of_int (ra - rb))
      else (let ta = timeKey a; tb = timeKey b in
            if \<not> num_strict_eq ta tb then js_minus ta tb
            else Fin (of_int (localeCompare (envelope_hash a) (envelope_hash b)))))"

text \<open>
  \<open>Array.prototype.sort(compareFn)\<close> is stable and moves \<open>b\<close> before \<open>a\<close> only when
  \<open>compareFn(a, b) > 0\<close> (\<open>NaN\<close> counts as \<open>0\<close>): a stable insertion sort.
\<close>

fun js_positive :: "jsnum \<Rightarrow> bool" where
  "js_positive PosInf = True"
| "js_positive (Fin q) = (0 < q)"
| "js_positive _ = False"

fun insert_sorted :: "('a \<Rightarrow> 'a \<Rightarrow> jsnum) \<Rightarrow> 'a \<Rightarrow> 'a list \<Rightarrow> 'a list" where
  "insert_sorted cmp x [] = [x]"
| "insert_sorted cmp x (y # ys) =
     (if js_positive (cmp x y) then y # insert_sorted cmp x ys else x # y # ys)"

definition js_sort :: "('a \<Rightarrow> 'a \<Rightarrow> jsnum) \<Rightarrow> 'a list \<Rightarrow> 'a list" where
  "js_sort cmp xs = foldr (insert_sorted cmp) xs []"

record resolved_trace_chain =
  chain_trace_id :: string
  ordered :: "ledger_artifact list"
  chain_auth_context :: "ledger_artifact list"
  chain_policy_decision :: "ledger_artifact list"
  evidence :: "ledger_artifact list"

definition resolveTraceChain ::
  "artifact_store \<Rightarrow> string \<Rightarrow> bool \<Rightarrow> resolved_trace_chain option" where
  "resolveTraceChain store trace_id include_rejected_attempts =
     (case map_of (buildTraceIndex store include_rejected_attempts) trace_id of
        None \<Rightarrow> None
      | Some items \<Rightarrow>
          (if length items = 0 then None
           else (let ord = js_sort compareArtifacts items in
                 Some \<lparr>chain_trace_id = trace_id, ordered = ord,
                       chain_auth_context = filter (\<lambda>x. record_type x = ''auth_context'') ord,
                       chain_policy_decision =
                         filter (\<lambda>x. record_type x = ''policy_decision'') ord,
                       evidence =
                         filter (\<lambda>x. record_type x = ''model_call'' \<or> record_type x = ''tool_call'')
                           ord\<rparr>)))"

subsection \<open>The order the resolver is to produce\<close>



text \<open>The artifacts of a trace: the index entries whose trace identifier is the given string.\<close>

definition ledger_entries :: "artifact_store \<Rightarrow> bool \<Rightarrow> ledger_artifact list" where
  "ledger_entries store include_rejected_attempts =
     map accepted_entry (accepted store) @
     (if include_rejected_attempts then map rejected_entry (rejected_attempts store) else [])"

definition trace_artifacts :: "artifact_store \<Rightarrow> string \<Rightarrow> bool \<Rightarrow> ledger_artifact list" where
  "trace_artifacts store trace_id include_rejected_attempts =
     filter (\<lambda>a. getTraceId (envelope a) = JStr trace_id)
       (ledger_entries store include_rejected_attempts)"

section \<open>Replay result records\<close>

text \<open>
  The result record the store-based engines build: \<open>{replay_type, target_trace_id,
  input_envelope_hashes, result, generated_at}\<close>, with \<open>reference_trace_id\<close> in constrained
  replay and \<open>failure_class\<close> once a check failed. \<open>generated_at\<close> is \<open>isoTime(clock)\<close>.
\<close>

record replay_record =
  replay_type :: string
  target_trace_id :: string
  input_envelope_hashes :: "string list"
  result :: string
  generated_at :: string
  reference_trace_id :: "string option"
  failure_class :: "classification option"

fun classification_name :: "classification \<Rightarrow> string" where
  "classification_name ACCEPT = ''ACCEPT''"
| "classification_name SCHEMA_REJECT = ''SCHEMA_REJECT''"
| "classification_name HASH_MISMATCH = ''HASH_MISMATCH''"
| "classification_name MISSING_PREREQ = ''MISSING_PREREQ''"
| "classification_name TRACE_VIOLATION = ''TRACE_VIOLATION''"
| "classification_name UNAUTHORIZED_EXECUTION = ''UNAUTHORIZED_EXECUTION''"
| "classification_name RECORD_TYPE_FORBIDDEN = ''RECORD_TYPE_FORBIDDEN''"
| "classification_name REPLAY_CHAIN_NOT_FOUND = ''REPLAY_CHAIN_NOT_FOUND''"
| "classification_name REPLAY_POLICY_PATH_MISMATCH = ''REPLAY_POLICY_PATH_MISMATCH''"
| "classification_name REPLAY_VARIANCE_VIOLATION = ''REPLAY_VARIANCE_VIOLATION''"
| "classification_name REPLAY_NOT_FOUND = ''REPLAY_NOT_FOUND''"

text \<open>The record as the JavaScript object that is canonicalized and hashed.\<close>

definition replay_record_json :: "replay_record \<Rightarrow> json" where
  "replay_record_json r =
     JObj ([(''replay_type'', JStr (replay_type r)),
            (''target_trace_id'', JStr (target_trace_id r)),
            (''input_envelope_hashes'', JArr (map JStr (input_envelope_hashes r))),
            (''result'', JStr (result r)),
            (''generated_at'', JStr (generated_at r))] @
           (case reference_trace_id r of None \<Rightarrow> [] | Some b \<Rightarrow> [(''reference_trace_id'', JStr b)]) @
           (case failure_class r of
              None \<Rightarrow> []
            | Some c \<Rightarrow> [(''failure_class'', JStr (classification_name c))]))"

text \<open>\<open>finalize(store, record, persist)\<close>: \<open>{record, artifact_sha256?}\<close> and the store after it.\<close>

definition finalize ::
  "deps \<Rightarrow> artifact_store \<Rightarrow> replay_record \<Rightarrow> bool \<Rightarrow>
   js_error + ((replay_record \<times> string option) \<times> artifact_store)" where
  "finalize D store record persist =
     (if persist then
        (case persistReplayResult D store (replay_record_json record) of
           Inl e \<Rightarrow> Inl e
         | Inr (out, store') \<Rightarrow> Inr ((record, Some (fst out)), store'))
      else Inr ((record, None), store))"

section \<open>Invariant replay (replay/invariant-replay.js)\<close>

definition schemaAndHashCheck :: "deps \<Rightarrow> json \<Rightarrow> string \<Rightarrow> js_error + classification option" where
  "schemaAndHashCheck D env expectedHash =
     (if \<not> validation_ok (validateEnvelope D env) then Inr (Some SCHEMA_REJECT)
      else (case hashEnvelope D env of
              Inl e \<Rightarrow> Inl e
            | Inr h \<Rightarrow> (if h \<noteq> expectedHash then Inr (Some HASH_MISMATCH) else Inr None)))"

text \<open>The first loop of \<open>invariantReplay\<close>: schema and hash integrity, first failure wins.\<close>

fun integrity_loop :: "deps \<Rightarrow> ledger_artifact list \<Rightarrow> js_error + classification option" where
  "integrity_loop D [] = Inr None"
| "integrity_loop D (art # arts) =
     (case schemaAndHashCheck D (envelope art) (envelope_hash art) of
        Inl e \<Rightarrow> Inl e
      | Inr (Some fc) \<Rightarrow> Inr (Some fc)
      | Inr None \<Rightarrow> integrity_loop D arts)"

text \<open>
  The body of the second loop, for one artifact: prerequisites, trace continuity and
  authorization against the store's accepted namespace (\<open>None\<close>: \<open>continue\<close>).
\<close>

definition chain_check :: "artifact_store \<Rightarrow> string \<Rightarrow> json \<Rightarrow> classification option" where
  "chain_check store rt env =
     (if rt = ''auth_context'' then None
      else if rt = ''policy_decision'' then
        (case getAccepted store (get_field env ''auth_context_envelope_sha256'') of
           None \<Rightarrow> Some MISSING_PREREQ
         | Some auth \<Rightarrow>
             (if \<not> strict_eq (traceIdOf (envelope auth)) (traceIdOf env)
              then Some TRACE_VIOLATION else None))
      else if rt = ''model_call'' \<or> rt = ''tool_call'' then
        (case getAccepted store (get_field env ''auth_context_envelope_sha256'') of
           None \<Rightarrow> Some MISSING_PREREQ
         | Some auth \<Rightarrow>
             (case getAccepted store (get_field env ''policy_decision_envelope_sha256'') of
                None \<Rightarrow> Some MISSING_PREREQ
              | Some pd \<Rightarrow>
                  (if \<not> strict_eq (traceIdOf (envelope auth)) (traceIdOf env) \<or>
                      \<not> strict_eq (traceIdOf (envelope pd)) (traceIdOf env)
                   then Some TRACE_VIOLATION
                   else if \<not> strict_eq (decision_result (envelope pd)) (JStr ''allow'')
                   then Some UNAUTHORIZED_EXECUTION
                   else None)))
      else None)"

fun chain_loop :: "artifact_store \<Rightarrow> ledger_artifact list \<Rightarrow> classification option" where
  "chain_loop store [] = None"
| "chain_loop store (art # arts) =
     (case chain_check store (record_type art) (envelope art) of
        Some fc \<Rightarrow> Some fc
      | None \<Rightarrow> chain_loop store arts)"

definition invariantReplay ::
  "deps \<Rightarrow> artifact_store \<Rightarrow> string \<Rightarrow> bool \<Rightarrow> string \<Rightarrow> bool \<Rightarrow>
   js_error + ((replay_record \<times> string option) \<times> artifact_store)" where
  "invariantReplay D store trace_id include_rejected_attempts clock persist_result =
     (let record = \<lparr>replay_type = ''invariant'', target_trace_id = trace_id,
                    input_envelope_hashes = [], result = ''fail'', generated_at = clock,
                    reference_trace_id = None, failure_class = None\<rparr>
      in case resolveTraceChain store trace_id include_rejected_attempts of
           None \<Rightarrow>
             finalize D store (record\<lparr>failure_class := Some REPLAY_CHAIN_NOT_FOUND\<rparr>)
               persist_result
         | Some chain \<Rightarrow>
             (let record = record\<lparr>input_envelope_hashes := map envelope_hash (ordered chain)\<rparr>
              in case integrity_loop D (ordered chain) of
                   Inl e \<Rightarrow> Inl e
                 | Inr (Some fc) \<Rightarrow>
                     finalize D store (record\<lparr>failure_class := Some fc\<rparr>) persist_result
                 | Inr None \<Rightarrow>
                     (case chain_loop store (ordered chain) of
                        Some fc \<Rightarrow>
                          finalize D store (record\<lparr>failure_class := Some fc\<rparr>) persist_result
                      | None \<Rightarrow>
                          finalize D store (record\<lparr>result := ''pass''\<rparr>) persist_result)))"

section \<open>Runs of the gate without digest collisions\<close>




text \<open>Values the canonical serializer accepts: no \<open>undefined\<close>, every number a safe integer.\<close>

fun canonicalizable :: "json \<Rightarrow> bool" where
  "canonicalizable JUndefined = False"
| "canonicalizable (JNum v) = Number_isSafeInteger v"
| "canonicalizable (JArr vs) = list_all canonicalizable vs"
| "canonicalizable (JObj kvs) = list_all (\<lambda>kv. canonicalizable (snd kv)) kvs"
| "canonicalizable v = True"

text \<open>A store offers every prerequisite another one offers, up to equality as JSON data.\<close>

definition extends :: "artifact_store \<Rightarrow> artifact_store \<Rightarrow> bool" where
  "extends S S' \<longleftrightarrow>
     (\<forall>x a. getAccepted S x = Some a \<longrightarrow>
        (\<exists>a'. getAccepted S' x = Some a' \<and> json_eq (envelope a) (envelope a')))"

section \<open>Forensic replay (replay/forensic.js)\<close>

text \<open>
  Modelled from the spec: \<open>ReplayIndex.fromLedger(ledger).resolve(trace_id)\<close>, whose class
  is not part of the sources at hand. Section 4.6 gives the resolver: the accepted
  namespace bucketed by trace identifier, each bucket ordered by kind class, time key and
  envelope hash, with the rejected attempts on request. That is \<open>resolveTraceChain\<close>; the
  call sites read the two fields \<open>accepted\<close> and \<open>rejected_attempts\<close> of the answer.
\<close>

record resolved_refs =
  resolved_accepted :: "ledger_artifact list"
  resolved_rejected_attempts :: "ledger_artifact list"

definition ReplayIndex_resolve :: "artifact_store \<Rightarrow> string \<Rightarrow> resolved_refs" where
  "ReplayIndex_resolve ledger trace_id =
     \<lparr>resolved_accepted =
        (case resolveTraceChain ledger trace_id False of
           None \<Rightarrow> []
         | Some chain \<Rightarrow> ordered chain),
      resolved_rejected_attempts =
        (case resolveTraceChain ledger trace_id True of
           None \<Rightarrow> []
         | Some chain \<Rightarrow>
             filter (\<lambda>x. ledger_status x = rejected_attempt_status) (ordered chain))\<rparr>"

fun status_name :: "ledger_status \<Rightarrow> string" where
  "status_name accepted_status = ''accepted''"
| "status_name rejected_attempt_status = ''rejected_attempt''"

text \<open>\<open>firstFailureDetails(ref, classification, failure_kind, extra)\<close>.\<close>

definition firstFailureDetails ::
  "ledger_artifact \<Rightarrow> string \<Rightarrow> string \<Rightarrow> (string \<times> json) list \<Rightarrow> json" where
  "firstFailureDetails ref cl failure_kind extra =
     JObj ([(''classification'', JStr cl), (''failure_kind'', JStr failure_kind),
            (''at'', JObj [(''status'', JStr (status_name (ledger_status ref))),
                          (''record_type'', JStr (record_type ref)),
                          (''envelope_hash'', JStr (envelope_hash ref))])] @ extra)"

text \<open>\<open>x ?? null\<close>.\<close>

definition or_null :: "json \<Rightarrow> json" where
  "or_null x = (if x = JUndefined then JNull else x)"

text \<open>
  \<open>buildReplayResult\<close> of replay-result.js; \<open>generated_at_ms\<close> is the reading of the
  millisecond clock, an integer.
\<close>

definition buildReplayResult ::
  "string \<Rightarrow> string \<Rightarrow> string list \<Rightarrow> string \<Rightarrow> json \<Rightarrow> json \<Rightarrow> int \<Rightarrow> json \<Rightarrow> json" where
  "buildReplayResult rtype trace_id hashes outcome fclass fkind generated_at_ms details =
     JObj [(''replay_type'', JStr rtype), (''target_trace_id'', JStr trace_id),
           (''input_envelope_hashes'', JArr (map JStr hashes)), (''result'', JStr outcome),
           (''failure_class'', or_null fclass), (''failure_kind'', or_null fkind),
           (''generated_at_ms'', JNum (Fin (of_int generated_at_ms))),
           (''details'', details)]"

text \<open>What \<open>forensicReplay\<close> returns: \<open>{ok, replay_result, result_artifact}\<close>.\<close>

record forensic_outcome =
  ok :: bool
  replay_result :: json
  result_artifact :: "replay_artifact option"

text \<open>
  The end of every path of \<open>forensicReplay\<close>: persist the result in the ledger when
  \<open>emit_result\<close> is set, and return.
\<close>

definition forensic_return ::
  "deps \<Rightarrow> artifact_store \<Rightarrow> bool \<Rightarrow> bool \<Rightarrow> json \<Rightarrow> js_error + (forensic_outcome \<times> artifact_store)"
  where
  "forensic_return D ledger emit_result is_ok rr =
     (if emit_result then
        (case ledger_persistReplayResult D ledger rr of
           Inl e \<Rightarrow> Inl e
         | Inr (art, ledger') \<Rightarrow>
             Inr (\<lparr>ok = is_ok, replay_result = rr, result_artifact = Some art\<rparr>, ledger'))
      else Inr (\<lparr>ok = is_ok, replay_result = rr, result_artifact = None\<rparr>, ledger))"

text \<open>
  The loop over \<open>resolved.accepted\<close>, with the store of the simulation kernel threaded
  through: \<open>Inr None\<close> when every reference passed, otherwise the failure class, the
  failure kind and the details of the first failure. An exception of the serializer
  leaves the replay (\<open>Inl\<close>).
\<close>

fun forensic_loop ::
  "deps \<Rightarrow> artifact_store \<Rightarrow> ledger_artifact list \<Rightarrow> js_error + (string \<times> string \<times> json) option"
  where
  "forensic_loop D sim [] = Inr None"
| "forensic_loop D sim (ref # refs) =
     (case validateEnvelope D (envelope ref) of
        Invalid errs \<Rightarrow>
          Inr (Some (''SCHEMA_REJECT'', ''replay.schema_reject'',
                     firstFailureDetails ref ''SCHEMA_REJECT'' ''replay.schema_reject''
                       [(''schema_errors'', JArr errs)]))
      | Valid vrt \<Rightarrow>
          (case canonicalizeEnvelope D (envelope ref) of
             Inl e \<Rightarrow> Inl e
           | Inr recomputed_canonical \<Rightarrow>
               (if recomputed_canonical \<noteq> canonical_json ref then
                  Inr (Some (''HASH_MISMATCH'', ''replay.canonical_json_mismatch'',
                             firstFailureDetails ref ''HASH_MISMATCH''
                               ''replay.canonical_json_mismatch'' []))
                else
                  (case hashEnvelope D (envelope ref) of
                     Inl e \<Rightarrow> Inl e
                   | Inr recomputed_hash \<Rightarrow>
                       (if recomputed_hash \<noteq> envelope_hash ref then
                          Inr (Some (''HASH_MISMATCH'', ''replay.hash_integrity_mismatch'',
                                     firstFailureDetails ref ''HASH_MISMATCH''
                                       ''replay.hash_integrity_mismatch''
                                       [(''expected_envelope_hash'', JStr (envelope_hash ref)),
                                        (''recomputed_envelope_hash'', JStr recomputed_hash)]))
                        else
                          (case commit_action D sim (record_type ref) (envelope_hash ref)
                                  (envelope ref) of
                             Inl e \<Rightarrow> Inl e
                           | Inr (Rejected cl kind h c, sim') \<Rightarrow>
                               Inr (Some (classification_name cl, kind,
                                          firstFailureDetails ref (classification_name cl) kind []))
                           | Inr (Accepted h c, sim') \<Rightarrow>
                               (if c \<noteq> canonical_json ref then
                                  Inr (Some (''HASH_MISMATCH'',
                                             ''replay.canonical_json_mismatch_commit'',
                                             firstFailureDetails ref ''HASH_MISMATCH''
                                               ''replay.canonical_json_mismatch_commit'' []))
                                else forensic_loop D sim' refs)))))))"

text \<open>
  \<open>forensicReplay({ledger, trace_id, emit_result})\<close> at clock reading \<open>now_ms\<close>. The
  simulation kernel starts on a store of its own, empty, which is dropped at the end.
\<close>

definition forensicReplay ::
  "deps \<Rightarrow> artifact_store \<Rightarrow> string \<Rightarrow> bool \<Rightarrow> int \<Rightarrow>
   js_error + (forensic_outcome \<times> artifact_store)" where
  "forensicReplay D ledger trace_id emit_result now_ms =
     (let resolved = ReplayIndex_resolve ledger trace_id in
      if length (resolved_accepted resolved) = 0 then
        forensic_return D ledger emit_result False
          (buildReplayResult ''forensic'' trace_id [] ''fail'' (JStr ''REPLAY_NOT_FOUND'')
             (JStr ''replay.not_found'') now_ms (JObj []))
      else
        (case forensic_loop D empty_store (resolved_accepted resolved) of
           Inl e \<Rightarrow> Inl e
         | Inr (Some (fclass, fkind, details)) \<Rightarrow>
             forensic_return D ledger emit_result False
               (buildReplayResult ''forensic'' trace_id
                  (map envelope_hash (resolved_accepted resolved)) ''fail''
                  (JStr fclass) (JStr fkind) now_ms details)
         | Inr None \<Rightarrow>
             forensic_return D ledger emit_result True
               (buildReplayResult ''forensic'' trace_id
                  (map envelope_hash (resolved_accepted resolved)) ''pass'' JNull JNull now_ms
                  (JObj [(''accepted_count'',
                          JNum (Fin (of_nat (length (resolved_accepted resolved))))),
                         (''rejected_attempts_observed'',
                          JNum (Fin (of_nat (length (resolved_rejected_attempts resolved)))))]))))"

section \<open>A concrete instance of the outside capabilities\<close>

text \<open>
  Closed examples need concrete capabilities. The sample digest is the identity (so it is
  collision-free), the sample \<open>JSON.stringify\<close> quotes strings without escapes and
  prints containers in insertion order, and the sample validators accept every envelope.
\<close>

fun sample_stringify :: "json \<Rightarrow> string" where
  "sample_stringify JUndefined = ''undefined''"
| "sample_stringify JNull = ''null''"
| "sample_stringify (JBool b) = (if b then ''true'' else ''false'')"
| "sample_stringify (JNum v) = (case jcs_number v of Inr s \<Rightarrow> s | Inl e \<Rightarrow> ''null'')"
| "sample_stringify (JStr s) = CHR 0x22 # s @ [CHR 0x22]"
| "sample_stringify (JArr vs) = ''['' @ join '','' (map sample_stringify vs) @ '']''"
| "sample_stringify (JObj kvs) =
     ''{'' @ join '','' (map (\<lambda>(k, v). CHR 0x22 # k @ [CHR 0x22] @ '':'' @ sample_stringify v) kvs) @ ''}''"

definition sample_deps :: deps where
  "sample_deps =
     \<lparr>sha256_hex = (\<lambda>s. s), JSON_stringify = sample_stringify,
      ajv_validators = (\<lambda>rt e. None)\<rparr>"

text \<open>A small chain: an auth context, an allow decision over it, and a tool call over both.\<close>

definition digest_of :: "json \<Rightarrow> string" where
  "digest_of env = (case hashEnvelope sample_deps env of Inr h \<Rightarrow> h | Inl e \<Rightarrow> [])"

definition sample_auth :: json where
  "sample_auth =
     JObj [(''record_type'', JStr ''auth_context''), (''ts_ms'', JNum (Fin 1)),
           (''trace'', JObj [(''trace_id'', JStr ''t1'')])]"

definition sample_pd :: json where
  "sample_pd =
     JObj [(''record_type'', JStr ''policy_decision''), (''ts_ms'', JNum (Fin 2)),
           (''trace'', JObj [(''trace_id'', JStr ''t1'')]),
           (''auth_context_envelope_sha256'', JStr (digest_of sample_auth)),
           (''decision'', JObj [(''result'', JStr ''allow'')])]"

definition sample_tool :: json where
  "sample_tool =
     JObj [(''record_type'', JStr ''tool_call''), (''started_at_ms'', JNum (Fin 3)),
           (''trace'', JObj [(''trace_id'', JStr ''t1'')]),
           (''auth_context_envelope_sha256'', JStr (digest_of sample_auth)),
           (''policy_decision_envelope_sha256'', JStr (digest_of sample_pd))]"


definition canonical_of :: "json \<Rightarrow> string" where
  "canonical_of env = (case canonicalizeEnvelope sample_deps env of Inr c \<Rightarrow> c | Inl e \<Rightarrow> [])"

text \<open>The store after the decision alone was submitted to an empty store.\<close>

definition missing_prereq_store :: artifact_store where
  "missing_prereq_store =
     commit_step sample_deps empty_store (''policy_decision'', digest_of sample_pd, sample_pd)"





text \<open>A gate-built store whose insertion order is not the chain order: a late auth context first.\<close>

definition sample_auth_late :: json where
  "sample_auth_late =
     JObj [(''record_type'', JStr ''auth_context''), (''ts_ms'', JNum (Fin 9)),
           (''trace'', JObj [(''trace_id'', JStr ''t1'')])]"

definition chain_store :: artifact_store where
  "chain_store =
     commit_all sample_deps empty_store
       [(''auth_context'', digest_of sample_auth_late, sample_auth_late),
        (''auth_context'', digest_of sample_auth, sample_auth),
        (''policy_decision'', digest_of sample_pd, sample_pd),
        (''tool_call'', digest_of sample_tool, sample_tool)]"




definition sample_pass_record :: replay_record where
  "sample_pass_record =
     \<lparr>replay_type = ''invariant'', target_trace_id = ''t1'',
      input_envelope_hashes =
        [digest_of sample_auth, digest_of sample_auth_late, digest_of sample_pd,
         digest_of sample_tool],
      result = ''pass'', generated_at = ''1970-01-01T00:00:00.000Z'',
      reference_trace_id = None, failure_class = None\<rparr>"

definition sample_forensic_outcome :: forensic_outcome where
  "sample_forensic_outcome =
     \<lparr>ok = True,
      replay_result =
        buildReplayResult ''forensic'' ''t1''
          [digest_of sample_auth, digest_of sample_auth_late, digest_of sample_pd,
           digest_of sample_tool] ''pass'' JNull JNull 0
          (JObj [(''accepted_count'', JNum (Fin 4)),
                 (''rejected_attempts_observed'', JNum (Fin 0))]),
      result_artifact = None\<rparr>"

section \<open>Verification\<close>

subsection \<open>Canonical codec\<close>

lemma jcs_number_ok_iff: "(\<exists>s. jcs_number v = Inr s) \<longleftrightarrow> Number_isSafeInteger v"
  by (auto simp: jcs_number_def Number_isSafeInteger_def Number_isInteger_def)

text \<open>
  C4, as stated: a number canonicalizes exactly when it is a finite integer that fits a
  signed 64-bit representation and is an IEEE-754 double without loss. This fails at
  \<open>2 ^ 53\<close>: it is a 64-bit integer and an exact double, and the serializer rejects it as
  an unsafe integer.
\<close>

theorem C4_counterexample:
  "spec_safe_range (Fin (2 ^ 53)) \<and>
   canonicalizeEnvelope sample_deps (JNum (Fin (2 ^ 53))) = Inl UnsafeInteger"
  by code_simp

text \<open>
  C4, amended: a number canonicalizes exactly when it is a finite integer of magnitude at
  most \<open>2 ^ 53 - 1\<close> (\<open>Number.isSafeInteger\<close>); a non-finite number, a non-integer and an
  integer outside that range each fail with their own error; negative zero is serialized
  as \<open>0\<close>.
\<close>

theorem C4_number_canonicalization:
  "((\<exists>s. canonicalizeEnvelope D (JNum v) = Inr s) \<longleftrightarrow>
      Number_isFinite v \<and> of_int \<lfloor>num_value v\<rfloor> = num_value v \<and>
      \<bar>\<lfloor>num_value v\<rfloor>\<bar> \<le> 2 ^ 53 - 1) \<and>
   (canonicalizeEnvelope D (JNum v) = Inl NonFiniteNumber \<longleftrightarrow> \<not> Number_isFinite v) \<and>
   (canonicalizeEnvelope D (JNum v) = Inl NonIntegerNumber \<longleftrightarrow>
      Number_isFinite v \<and> of_int \<lfloor>num_value v\<rfloor> \<noteq> num_value v) \<and>
   (canonicalizeEnvelope D (JNum v) = Inl UnsafeInteger \<longleftrightarrow>
      Number_isFinite v \<and> of_int \<lfloor>num_value v\<rfloor> = num_value v \<and>
      \<bar>\<lfloor>num_value v\<rfloor>\<bar> > 2 ^ 53 - 1) \<and>
   canonicalizeEnvelope D (JNum NegZero) = Inr ''0''"
  by (auto simp: canonicalizeEnvelope_def jcs_number_def Number_isSafeInteger_def
      Number_isInteger_def MAX_SAFE_INTEGER_def)

theorem C4_number_canonicalization_witness:
  "canonicalizeEnvelope sample_deps (JNum (Fin (- 42))) = Inr ''-42'' \<and>
   canonicalizeEnvelope sample_deps (JNum (Fin (2 ^ 53 - 1))) = Inr ''9007199254740991'' \<and>
   canonicalizeEnvelope sample_deps (JNum (Fin (1 / 2))) = Inl NonIntegerNumber \<and>
   canonicalizeEnvelope sample_deps (JNum PosInf) = Inl NonFiniteNumber \<and>
   canonicalizeEnvelope sample_deps (JNum NegZero) = Inr ''0''"
proof -
  have a: "canonicalizeEnvelope sample_deps (JNum (Fin (- 42))) = Inr ''-42''"
    by code_simp
  have b: "canonicalizeEnvelope sample_deps (JNum (Fin (2 ^ 53 - 1))) = Inr ''9007199254740991''"
    by code_simp
  have c: "canonicalizeEnvelope sample_deps (JNum (Fin (1 / 2))) = Inl NonIntegerNumber"
    by code_simp
  have d: "canonicalizeEnvelope sample_deps (JNum PosInf) = Inl NonFiniteNumber"
    using C4_number_canonicalization [of sample_deps PosInf] by simp
  have e: "canonicalizeEnvelope sample_deps (JNum NegZero) = Inr ''0''"
    using C4_number_canonicalization [of sample_deps NegZero] by simp
  from a b c d e show ?thesis by simp
qed

subsection \<open>Order independence\<close>

lemma json_eq_JUndefined [simp]: "json_eq JUndefined b \<longleftrightarrow> b = JUndefined"
  by (cases b) auto

lemma json_eq_JNull [simp]: "json_eq JNull b \<longleftrightarrow> b = JNull"
  by (cases b) auto

lemma json_eq_JBool [simp]: "json_eq (JBool x) b \<longleftrightarrow> b = JBool x"
  by (cases b) auto

lemma json_eq_JNum [simp]: "json_eq (JNum x) b \<longleftrightarrow> b = JNum x"
  by (cases b) auto

lemma json_eq_JStr [simp]: "json_eq (JStr x) b \<longleftrightarrow> b = JStr x"
  by (cases b) auto

lemma json_eq_right_JUndefined [simp]: "json_eq a JUndefined \<longleftrightarrow> a = JUndefined"
  by (cases a) auto

lemma json_eq_JArr_left: "json_eq (JArr xs) b \<Longrightarrow> \<exists>ys. b = JArr ys \<and> list_all2 json_eq xs ys"
  by (cases b) auto

lemma json_eq_JObj_left: "json_eq (JObj a) b \<Longrightarrow> \<exists>c. b = JObj c"
  by (cases b) auto

lemma list_all2_jcs:
  "list_all2 (\<lambda>x y. jcsSerialize D x = jcsSerialize D y) xs ys \<Longrightarrow>
   map (jcsSerialize D) xs = map (jcsSerialize D) ys"
  by (induction rule: list_all2_induct) auto

lemma sort_keys_eq:
  assumes s: "set (map fst a) = set (map fst b)"
  shows "sort (Object_keys a) = sort (Object_keys b)"
proof -
  have "sort (remdups (map fst a)) = sorted_list_of_set (set (map fst a))"
    by (rule sorted_list_of_set_sort_remdups [symmetric])
  moreover have "sort (remdups (map fst b)) = sorted_list_of_set (set (map fst b))"
    by (rule sorted_list_of_set_sort_remdups [symmetric])
  ultimately show ?thesis using s unfolding Object_keys_def by metis
qed

lemma jcs_json_eq:
  "(\<forall>b. json_eq a b \<longrightarrow> jcsSerialize D a = jcsSerialize D b)"
  "(\<forall>kvs'. (\<forall>k \<in> set ks. (case map_of kvs k of None \<Rightarrow> False
        | Some v \<Rightarrow> (case map_of kvs' k of None \<Rightarrow> False | Some w \<Rightarrow> json_eq v w)))
      \<longrightarrow> jcs_members D kvs ks = jcs_members D kvs' ks)"
proof (induction D a and D kvs ks rule: jcsSerialize_jcs_members.induct)
  case (6 D vs)
  show ?case
  proof (intro allI impI)
    fix b assume "json_eq (JArr vs) b"
    then obtain ys where b: "b = JArr ys" and l: "list_all2 json_eq vs ys"
      using json_eq_JArr_left by blast
    from l 6 have "list_all2 (\<lambda>x y. jcsSerialize D x = jcsSerialize D y) vs ys"
      by (auto simp: list_all2_conv_all_nth)
    then show "jcsSerialize D (JArr vs) = jcsSerialize D b"
      using b by (simp add: list_all2_jcs)
  qed
next
  case (7 D kvs)
  show ?case
  proof (intro allI impI)
    fix b assume e: "json_eq (JObj kvs) b"
    then obtain c where b: "b = JObj c" using json_eq_JObj_left by blast
    from e b have s: "set (map fst kvs) = set (map fst c)" by simp
    have k: "sort (Object_keys kvs) = sort (Object_keys c)" using s by (rule sort_keys_eq)
    have "jcs_members D kvs (sort (Object_keys kvs)) = jcs_members D c (sort (Object_keys kvs))"
      using 7 e b by (simp add: Object_keys_def)
    then show "jcsSerialize D (JObj kvs) = jcsSerialize D b"
      using b k by simp
  qed
next
  case (9 D kvs k ks)
  show ?case
  proof (intro allI impI)
    fix kvs'
    assume a: "\<forall>k\<in>set (k # ks). case map_of kvs k of None \<Rightarrow> False
        | Some v \<Rightarrow> (case map_of kvs' k of None \<Rightarrow> False | Some w \<Rightarrow> json_eq v w)"
    then obtain v w where v: "map_of kvs k = Some v" and w: "map_of kvs' k = Some w"
      and vw: "json_eq v w"
      by (auto split: option.splits)
    show "jcs_members D kvs (k # ks) = jcs_members D kvs' (k # ks)"
    proof (cases "v = JUndefined")
      case True
      with vw have "w = JUndefined" by simp
      with True v w show ?thesis by simp
    next
      case False
      with vw have wn: "w \<noteq> JUndefined" by auto
      from 9(1)[OF v False] vw have eq: "jcsSerialize D v = jcsSerialize D w" by blast
      show ?thesis
      proof (cases "jcsSerialize D v")
        case (Inl e)
        then have "jcsSerialize D w = Inl e" using eq by simp
        with Inl v w False wn show ?thesis by simp
      next
        case (Inr s)
        from 9(2)[OF v False Inr] a have "jcs_members D kvs ks = jcs_members D kvs' ks" by simp
        moreover have "jcsSerialize D w = Inr s" using eq Inr by simp
        ultimately show ?thesis using v w False wn Inr by simp
      qed
    qed
  qed
qed auto

text \<open>
  C5: two values equal as JSON data (same keys mapping to recursively equal values,
  whatever the insertion order) have the same canonical form, thrown error included, and
  therefore the same envelope hash.
\<close>

theorem C5_canonicalization_order_independent:
  "json_eq a b \<Longrightarrow>
   canonicalizeEnvelope D a = canonicalizeEnvelope D b \<and> hashEnvelope D a = hashEnvelope D b"
  using jcs_json_eq(1) [of a D] by (simp add: canonicalizeEnvelope_def hashEnvelope_def)

theorem C5_canonicalization_order_independent_witness:
  "json_eq (JObj [(''b'', JNum (Fin 1)), (''a'', JObj [(''y'', JNull), (''x'', JStr ''s'')])])
           (JObj [(''a'', JObj [(''x'', JStr ''s''), (''y'', JNull)]), (''b'', JNum (Fin 1))]) \<and>
   canonicalizeEnvelope sample_deps
     (JObj [(''b'', JNum (Fin 1)), (''a'', JObj [(''y'', JNull), (''x'', JStr ''s'')])]) =
   canonicalizeEnvelope sample_deps
     (JObj [(''a'', JObj [(''x'', JStr ''s''), (''y'', JNull)]), (''b'', JNum (Fin 1))]) \<and>
   hashEnvelope sample_deps
     (JObj [(''b'', JNum (Fin 1)), (''a'', JObj [(''y'', JNull), (''x'', JStr ''s'')])]) =
   hashEnvelope sample_deps
     (JObj [(''a'', JObj [(''x'', JStr ''s''), (''y'', JNull)]), (''b'', JNum (Fin 1))])"
proof -
  have e: "json_eq (JObj [(''b'', JNum (Fin 1)), (''a'', JObj [(''y'', JNull), (''x'', JStr ''s'')])])
           (JObj [(''a'', JObj [(''x'', JStr ''s''), (''y'', JNull)]), (''b'', JNum (Fin 1))])"
    by code_simp
  from e C5_canonicalization_order_independent [OF e, of sample_deps] show ?thesis by blast
qed

subsection \<open>Commit gate: rejection and persistence\<close>

lemma map_of_update_same: "map_of (AList.update k v al) k = Some v"
  by (simp add: update_conv')

lemma persist_cases:
  "persistRejectedAttemptIfRequired S x =
     (if classification x \<in> PERSIST_REJECTED_ATTEMPT then putRejectedAttempt S x else S)"
  by (auto simp: persistRejectedAttemptIfRequired_def NON_PERSISTENT_FAILURES_def
      PERSIST_REJECTED_ATTEMPT_def)

lemma validate_ok_record_type:
  "validateEnvelope D env = Valid vrt \<Longrightarrow>
   get_field env ''record_type'' = JStr vrt \<and> vrt \<in> set RECORD_TYPES"
  by (auto simp: validateEnvelope_def split: json.splits option.splits if_splits)

lemma resolvePrereqs_fail:
  "resolvePrereqs S rt env = PrereqsFail cl kind \<Longrightarrow> rt \<in> set RECORD_TYPES \<Longrightarrow>
   cl = MISSING_PREREQ"
  by (auto simp: resolvePrereqs_def RECORD_TYPES_def split: if_splits option.splits)

lemma trace_fail:
  "enforceTraceContinuity rt env a p = Some (cl, kind) \<Longrightarrow> cl = TRACE_VIOLATION"
  by (auto simp: enforceTraceContinuity_def split: if_splits json.splits)

lemma authz_fail: "enforceAuthorization rt p = Some (cl, kind) \<Longrightarrow> cl = UNAUTHORIZED_EXECUTION"
  by (auto simp: enforceAuthorization_def split: if_splits)

text \<open>
  C1: when a call of \<open>commit_action\<close> returns \<open>HASH_MISMATCH\<close>, \<open>MISSING_PREREQ\<close>,
  \<open>TRACE_VIOLATION\<close> or \<open>UNAUTHORIZED_EXECUTION\<close>, the rejected-attempts namespace afterwards
  holds, under the computed envelope hash (which differs from the declared one on a hash
  mismatch), the attempt with that classification and the returned error kind; when it
  returns \<open>SCHEMA_REJECT\<close> or \<open>RECORD_TYPE_FORBIDDEN\<close>, the store is the one before the call.
\<close>

theorem C1_rejection_persistence:
  assumes "commit_action D S rt declared env = Inr (res, S')"
  shows "(commit_classification res \<in>
            {HASH_MISMATCH, MISSING_PREREQ, TRACE_VIOLATION, UNAUTHORIZED_EXECUTION} \<longrightarrow>
           (\<exists>h canonical kind.
              hashEnvelope D env = Inr h \<and> canonicalizeEnvelope D env = Inr canonical \<and>
              commit_error_kind res = Some kind \<and>
              map_of (rejected_attempts S') h =
                Some \<lparr>envelope_hash = h, record_type = rt, envelope = env,
                      canonical_json = canonical,
                      classification = commit_classification res, error_kind = kind\<rparr> \<and>
              (commit_classification res = HASH_MISMATCH \<longrightarrow> h \<noteq> declared))) \<and>
         (commit_classification res \<in> {SCHEMA_REJECT, RECORD_TYPE_FORBIDDEN} \<longrightarrow> S' = S)"
  using assms
  apply (simp add: commit_action_def persist_cases rejected_attempt_def putRejectedAttempt_def
      PERSIST_REJECTED_ATTEMPT_def map_of_update_same
      split: if_splits validation.splits sum.splits prereqs.splits option.splits prod.splits)
  apply (auto dest: resolvePrereqs_fail trace_fail authz_fail simp: map_of_update_same)
  done

lemma sample_pd_hash: "hashEnvelope sample_deps sample_pd = Inr (digest_of sample_pd)"
  by code_simp

lemma sample_pd_canonical: "canonicalizeEnvelope sample_deps sample_pd = Inr (canonical_of sample_pd)"
  by code_simp

lemma sample_pd_missing_prereq:
  "commit_action sample_deps empty_store ''policy_decision'' (digest_of sample_pd) sample_pd =
   Inr (Rejected MISSING_PREREQ ''missing_prereq.auth_context''
          (Some (digest_of sample_pd)) (Some (canonical_of sample_pd)),
        missing_prereq_store)"
  by code_simp

theorem C1_rejection_persistence_witness:
  "commit_action sample_deps empty_store ''policy_decision'' (digest_of sample_pd) sample_pd =
   Inr (Rejected MISSING_PREREQ ''missing_prereq.auth_context''
          (Some (digest_of sample_pd)) (Some (canonical_of sample_pd)),
        missing_prereq_store) \<and>
   map_of (rejected_attempts missing_prereq_store) (digest_of sample_pd) =
     Some \<lparr>envelope_hash = digest_of sample_pd, record_type = ''policy_decision'',
           envelope = sample_pd, canonical_json = canonical_of sample_pd,
           classification = MISSING_PREREQ, error_kind = ''missing_prereq.auth_context''\<rparr>"
  using C1_rejection_persistence [OF sample_pd_missing_prereq] sample_pd_missing_prereq
    sample_pd_hash sample_pd_canonical
  by auto

text \<open>
  C7: when the declared kind is an allowed record type and the record passes schema
  validation but its own \<open>record_type\<close> is not the declared kind, the outcome is
  \<open>SCHEMA_REJECT\<close> (error kind \<open>schema_violation.record_type_mismatch\<close>, no hash and no
  canonical bytes returned) and the store is unchanged in every namespace.
\<close>

theorem C7_payload_kind_agreement:
  assumes "rt \<in> set RECORD_TYPES" and "validateEnvelope D env = Valid vrt"
    and "get_field env ''record_type'' \<noteq> JStr rt"
  shows "commit_action D S rt declared env =
         Inr (Rejected SCHEMA_REJECT ''schema_violation.record_type_mismatch'' None None, S)"
  using assms validate_ok_record_type [OF assms(2)]
  by (auto simp: commit_action_def)

lemma sample_auth_valid: "validateEnvelope sample_deps sample_auth = Valid ''auth_context''"
  by code_simp

lemma sample_auth_not_pd: "get_field sample_auth ''record_type'' \<noteq> JStr ''policy_decision''"
  by code_simp

theorem C7_payload_kind_agreement_witness:
  "''policy_decision'' \<in> set RECORD_TYPES \<and>
   validateEnvelope sample_deps sample_auth = Valid ''auth_context'' \<and>
   get_field sample_auth ''record_type'' \<noteq> JStr ''policy_decision'' \<and>
   commit_action sample_deps missing_prereq_store ''policy_decision'' (digest_of sample_auth)
     sample_auth =
   Inr (Rejected SCHEMA_REJECT ''schema_violation.record_type_mismatch'' None None,
        missing_prereq_store)"
proof -
  have m: "''policy_decision'' \<in> set RECORD_TYPES" by (simp add: RECORD_TYPES_def)
  show ?thesis
    using C7_payload_kind_agreement [OF m sample_auth_valid sample_auth_not_pd] m
      sample_auth_valid sample_auth_not_pd
    by blast
qed

subsection \<open>Namespaces of a reachable store\<close>















subsection \<open>Trace resolver\<close>

lemma index_add_lookup:
  "map_of (index_add idx art) t =
     (if getTraceId (envelope art) = JStr t \<and> t \<noteq> []
      then Some ((case map_of idx t of Some arr \<Rightarrow> arr | None \<Rightarrow> []) @ [art])
      else map_of idx t)"
  by (auto simp: index_add_def update_conv' split: json.splits)

lemma foldl_index_add:
  "map_of (foldl index_add idx arts) t =
     (if t = [] \<or> filter (\<lambda>a. getTraceId (envelope a) = JStr t) arts = [] then map_of idx t
      else Some ((case map_of idx t of Some arr \<Rightarrow> arr | None \<Rightarrow> []) @
                 filter (\<lambda>a. getTraceId (envelope a) = JStr t) arts))"
proof (induction arts arbitrary: idx)
  case Nil
  show ?case by simp
next
  case (Cons a arts)
  show ?case
    by (simp add: Cons index_add_lookup split: option.splits)
qed

lemma buildTraceIndex_lookup:
  "map_of (buildTraceIndex S inc) t =
     (if t = [] \<or> trace_artifacts S t inc = [] then None
      else Some (trace_artifacts S t inc))"
  by (auto simp: buildTraceIndex_def Let_def foldl_index_add trace_artifacts_def
      ledger_entries_def split: option.splits)

lemma resolveTraceChain_unfold:
  "resolveTraceChain S t inc =
     (if t = [] \<or> trace_artifacts S t inc = [] then None
      else (let ord = js_sort compareArtifacts (trace_artifacts S t inc) in
            Some \<lparr>chain_trace_id = t, ordered = ord,
                  chain_auth_context = filter (\<lambda>x. record_type x = ''auth_context'') ord,
                  chain_policy_decision = filter (\<lambda>x. record_type x = ''policy_decision'') ord,
                  evidence =
                    filter (\<lambda>x. record_type x = ''model_call'' \<or> record_type x = ''tool_call'')
                      ord\<rparr>))"
  by (simp add: resolveTraceChain_def buildTraceIndex_lookup)



lemma set_insert_sorted: "set (insert_sorted cmp x ys) = insert x (set ys)"
  by (induction ys) auto

lemma set_js_sort: "set (js_sort cmp xs) = set xs"
  by (induction xs) (auto simp: js_sort_def set_insert_sorted)


















subsection \<open>Invariant replay over gate-built stores\<close>

lemma json_eq_refl: "json_eq v v"
proof (induction v)
  case (JArr vs)
  then show ?case by (simp add: list_all2_same)
next
  case (JObj kvs)
  have "\<And>k v. map_of kvs k = Some v \<Longrightarrow> json_eq v v"
  proof -
    fix k v assume "map_of kvs k = Some v"
    then have "(k, v) \<in> set kvs" by (rule map_of_SomeD)
    then show "json_eq v v" using JObj by fastforce
  qed
  then show ?case
    by (auto split: option.splits simp: map_of_eq_None_iff)
qed simp_all

lemma json_eq_get_field: "json_eq a b \<Longrightarrow> json_eq (get_field a k) (get_field b k)"
proof (cases a)
  case (JObj kvs)
  assume e: "json_eq a b"
  then obtain c where b: "b = JObj c" using JObj by (cases b) auto
  from e JObj b have both: "set (map fst kvs) = set (map fst c) \<and>
      (\<forall>k \<in> set (map fst kvs).
         (case map_of kvs k of
            None \<Rightarrow> False
          | Some v \<Rightarrow> (case map_of c k of None \<Rightarrow> False | Some w \<Rightarrow> json_eq v w)))"
    using json_eq.simps(1) [of kvs c] by blast
  from both have keys: "set (map fst kvs) = set (map fst c)" by (rule conjunct1)
  from both have mem: "\<forall>k \<in> set (map fst kvs).
         (case map_of kvs k of
            None \<Rightarrow> False
          | Some v \<Rightarrow> (case map_of c k of None \<Rightarrow> False | Some w \<Rightarrow> json_eq v w))"
    by (rule conjunct2)
  show ?thesis
  proof (cases "k \<in> set (map fst kvs)")
    case True
    with mem have "case map_of kvs k of
            None \<Rightarrow> False
          | Some v \<Rightarrow> (case map_of c k of None \<Rightarrow> False | Some w \<Rightarrow> json_eq v w)"
      by (rule bspec)
    then show ?thesis using JObj b by (simp split: option.splits)
  next
    case False
    then have n1: "map_of kvs k = None" by (simp add: map_of_eq_None_iff)
    from False keys have "k \<notin> set (map fst c)" by simp
    then have n2: "map_of c k = None" by (simp add: map_of_eq_None_iff)
    from n1 n2 JObj b show ?thesis by simp
  qed
next
  case (JArr vs)
  assume "json_eq a b"
  then obtain ws where "b = JArr ws" using JArr by (cases b) auto
  with JArr show ?thesis by simp
qed (auto)

lemma sequence_results_ok:
  "\<forall>r \<in> set rs. \<exists>s. r = Inr s \<Longrightarrow> \<exists>ss. sequence_results rs = Inr ss"
  by (induction rs) auto

lemma json_eq_strict: "json_eq v w \<Longrightarrow> strict_eq v x = strict_eq w x"
  by (cases v; cases w) auto

lemma jcs_canonicalizable:
  "canonicalizable a \<longrightarrow> (\<exists>s. jcsSerialize D a = Inr s)"
  "(\<forall>k \<in> set ks. \<exists>v. map_of kvs k = Some v \<and> canonicalizable v) \<longrightarrow>
     (\<exists>ms. jcs_members D kvs ks = Inr ms)"
proof (induction D a and D kvs ks rule: jcsSerialize_jcs_members.induct)
  case (4 D v)
  show ?case using jcs_number_ok_iff [of v] by simp
next
  case (6 D vs)
  show ?case
  proof
    assume "canonicalizable (JArr vs)"
    with 6 have "\<forall>r \<in> set (map (jcsSerialize D) vs). \<exists>s. r = Inr s"
      by (auto simp: list_all_iff)
    then obtain ss where "sequence_results (map (jcsSerialize D) vs) = Inr ss"
      using sequence_results_ok by blast
    then show "\<exists>s. jcsSerialize D (JArr vs) = Inr s" by simp
  qed
next
  case (7 D kvs)
  have "\<forall>k \<in> set (sort (Object_keys kvs)). \<exists>v. map_of kvs k = Some v \<and> canonicalizable v"
    if "canonicalizable (JObj kvs)"
  proof
    fix k assume "k \<in> set (sort (Object_keys kvs))"
    then have "k \<in> fst ` set kvs" by (simp add: Object_keys_def)
    then obtain v where v: "map_of kvs k = Some v"
      by (metis map_of_eq_None_iff not_Some_eq)
    then have "(k, v) \<in> set kvs" by (rule map_of_SomeD)
    with that have "canonicalizable v" by (auto simp: list_all_iff)
    with v show "\<exists>v. map_of kvs k = Some v \<and> canonicalizable v" by blast
  qed
  with 7 show ?case by auto
next
  case (9 D kvs k ks)
  show ?case
  proof
    assume a: "\<forall>k\<in>set (k # ks). \<exists>v. map_of kvs k = Some v \<and> canonicalizable v"
    then obtain v where v: "map_of kvs k = Some v" and c: "canonicalizable v" by auto
    from c have nu: "v \<noteq> JUndefined" by auto
    from 9(1)[OF v nu] c obtain s where s: "jcsSerialize D v = Inr s" by blast
    from 9(2)[OF v nu s] a obtain ms where "jcs_members D kvs ks = Inr ms" by auto
    with v nu s show "\<exists>ms. jcs_members D kvs (k # ks) = Inr ms" by simp
  qed
qed auto

lemma replay_record_canonicalizable: "canonicalizable (replay_record_json r)"
  by (auto simp: replay_record_json_def list_all_iff split: option.splits)

lemma finalize_ok:
  "\<exists>sha S'. finalize D S r persist = Inr ((r, sha), S')"
proof -
  obtain c where c: "jcsSerialize D (replay_record_json r) = Inr c"
    using jcs_canonicalizable(1) [of "replay_record_json r" D] replay_record_canonicalizable
    by blast
  then show ?thesis
    by (auto simp: finalize_def persistReplayResult_def sealReplayResult_def
        canonicalizeEnvelope_def hashEnvelope_def)
qed

lemma chain_check_auth: "chain_check S ''auth_context'' env = None"
  by (simp add: chain_check_def)

lemma chain_check_pd:
  "chain_check S ''policy_decision'' env =
     (case getAccepted S (get_field env ''auth_context_envelope_sha256'') of
           None \<Rightarrow> Some MISSING_PREREQ
         | Some auth \<Rightarrow>
             (if \<not> strict_eq (traceIdOf (envelope auth)) (traceIdOf env)
              then Some TRACE_VIOLATION else None))"
  by (simp add: chain_check_def)

lemma chain_check_ev:
  "rt = ''model_call'' \<or> rt = ''tool_call'' \<Longrightarrow>
   chain_check S rt env =
        (case getAccepted S (get_field env ''auth_context_envelope_sha256'') of
           None \<Rightarrow> Some MISSING_PREREQ
         | Some auth \<Rightarrow>
             (case getAccepted S (get_field env ''policy_decision_envelope_sha256'') of
                None \<Rightarrow> Some MISSING_PREREQ
              | Some pd \<Rightarrow>
                  (if \<not> strict_eq (traceIdOf (envelope auth)) (traceIdOf env) \<or>
                      \<not> strict_eq (traceIdOf (envelope pd)) (traceIdOf env)
                   then Some TRACE_VIOLATION
                   else if \<not> strict_eq (decision_result (envelope pd)) (JStr ''allow'')
                   then Some UNAUTHORIZED_EXECUTION
                   else None)))"
  by (auto simp: chain_check_def)

lemma chain_check_other:
  "rt \<noteq> ''auth_context'' \<Longrightarrow> rt \<noteq> ''policy_decision'' \<Longrightarrow> rt \<noteq> ''model_call'' \<Longrightarrow>
   rt \<noteq> ''tool_call'' \<Longrightarrow> chain_check S rt env = None"
  by (simp add: chain_check_def)

lemma getTraceId_traceIdOf: "getTraceId env = traceIdOf env"
  by (simp add: getTraceId_def traceIdOf_def)

lemma json_eq_traceIdOf: "json_eq a b \<Longrightarrow> json_eq (traceIdOf a) (traceIdOf b)"
  unfolding traceIdOf_def by (intro json_eq_get_field)

lemma json_eq_decision_result: "json_eq a b \<Longrightarrow> json_eq (decision_result a) (decision_result b)"
  unfolding decision_result_def by (intro json_eq_get_field)

lemma strict_eq_trace_cong:
  "json_eq a b \<Longrightarrow> strict_eq (traceIdOf a) x = strict_eq (traceIdOf b) x"
  by (rule json_eq_strict) (rule json_eq_traceIdOf)

lemma strict_eq_decision_cong:
  "json_eq a b \<Longrightarrow> strict_eq (decision_result a) x = strict_eq (decision_result b) x"
  by (rule json_eq_strict) (rule json_eq_decision_result)

lemma chain_check_mono:
  assumes "chain_check S rt env = None" and "extends S S'"
  shows "chain_check S' rt env = None"
proof -
  have look: "\<And>x a. getAccepted S x = Some a \<Longrightarrow>
      \<exists>a'. getAccepted S' x = Some a' \<and>
        (\<forall>y. strict_eq (traceIdOf (envelope a)) y = strict_eq (traceIdOf (envelope a')) y) \<and>
        (\<forall>y. strict_eq (decision_result (envelope a)) y = strict_eq (decision_result (envelope a')) y)"
  proof -
    fix x a assume "getAccepted S x = Some a"
    with assms(2) obtain a' where a': "getAccepted S' x = Some a'"
      and e: "json_eq (envelope a) (envelope a')"
      unfolding extends_def by blast
    from e have "\<forall>y. strict_eq (traceIdOf (envelope a)) y = strict_eq (traceIdOf (envelope a')) y"
      by (simp add: strict_eq_trace_cong)
    moreover from e have
      "\<forall>y. strict_eq (decision_result (envelope a)) y = strict_eq (decision_result (envelope a')) y"
      by (simp add: strict_eq_decision_cong)
    ultimately show "\<exists>a'. getAccepted S' x = Some a' \<and>
        (\<forall>y. strict_eq (traceIdOf (envelope a)) y = strict_eq (traceIdOf (envelope a')) y) \<and>
        (\<forall>y. strict_eq (decision_result (envelope a)) y = strict_eq (decision_result (envelope a')) y)"
      using a' by blast
  qed
  consider (auth) "rt = ''auth_context''" | (pd) "rt = ''policy_decision''"
    | (ev) "rt = ''model_call'' \<or> rt = ''tool_call''"
    | (other) "rt \<noteq> ''auth_context''" "rt \<noteq> ''policy_decision''" "rt \<noteq> ''model_call''" "rt \<noteq> ''tool_call''"
    by blast
  then show ?thesis
  proof cases
    case auth
    then show ?thesis by (simp add: chain_check_auth)
  next
    case pd
    from assms(1) obtain a where a: "getAccepted S (get_field env ''auth_context_envelope_sha256'') = Some a"
      and t: "strict_eq (traceIdOf (envelope a)) (traceIdOf env)"
      unfolding pd chain_check_pd by (auto split: option.splits if_splits)
    from look [OF a] t show ?thesis unfolding pd chain_check_pd by auto
  next
    case ev
    from assms(1) obtain a p where a: "getAccepted S (get_field env ''auth_context_envelope_sha256'') = Some a"
      and p: "getAccepted S (get_field env ''policy_decision_envelope_sha256'') = Some p"
      and t: "strict_eq (traceIdOf (envelope a)) (traceIdOf env)"
         "strict_eq (traceIdOf (envelope p)) (traceIdOf env)"
         "strict_eq (decision_result (envelope p)) (JStr ''allow'')"
      unfolding chain_check_ev [OF ev] by (auto split: option.splits if_splits)
    from look [OF a] look [OF p] t show ?thesis unfolding chain_check_ev [OF ev] by auto
  next
    case other
    then show ?thesis by (simp add: chain_check_other)
  qed
qed

lemma commit_checks_chain_check:
  assumes r: "resolvePrereqs S rt env = PrereqsOk auth pd"
    and t: "enforceTraceContinuity rt env auth pd = None"
    and z: "enforceAuthorization rt pd = None"
  shows "chain_check S rt env = None"
proof -
  consider (auth) "rt = ''auth_context''" | (pd) "rt = ''policy_decision''"
    | (ev) "rt = ''model_call'' \<or> rt = ''tool_call''"
    | (other) "rt \<noteq> ''auth_context''" "rt \<noteq> ''policy_decision''" "rt \<noteq> ''model_call''" "rt \<noteq> ''tool_call''"
    by blast
  then show ?thesis
  proof cases
    case auth
    then show ?thesis by (simp add: chain_check_auth)
  next
    case pd
    from r pd obtain a where a: "getAccepted S (get_field env ''auth_context_envelope_sha256'') = Some a"
      and au: "auth = Some a"
      by (auto simp: resolvePrereqs_def split: option.splits)
    from t pd au obtain tid where "traceIdOf env = JStr tid"
      and "strict_eq (traceIdOf (envelope a)) (JStr tid)"
      by (auto simp: enforceTraceContinuity_def artifact_trace_id_def split: json.splits if_splits)
    with a show ?thesis unfolding pd chain_check_pd by simp
  next
    case ev
    from r ev obtain a p where a: "getAccepted S (get_field env ''auth_context_envelope_sha256'') = Some a"
      and p: "getAccepted S (get_field env ''policy_decision_envelope_sha256'') = Some p"
      and au: "auth = Some a" and pu: "pd = Some p"
      by (auto simp: resolvePrereqs_def split: option.splits)
    from t ev au pu obtain tid where "traceIdOf env = JStr tid"
      and "strict_eq (traceIdOf (envelope a)) (JStr tid)"
      and "strict_eq (traceIdOf (envelope p)) (JStr tid)"
      by (auto simp: enforceTraceContinuity_def artifact_trace_id_def split: json.splits if_splits)
    moreover from z ev pu have "strict_eq (decision_result (envelope p)) (JStr ''allow'')"
      by (auto simp: enforceAuthorization_def artifact_decision_result_def split: if_splits)
    ultimately show ?thesis using a p unfolding chain_check_ev [OF ev] by simp
  next
    case other
    then show ?thesis by (simp add: chain_check_other)
  qed
qed

lemma commit_accepted_shape:
  assumes "commit_action D S rt declared env = Inr (Accepted h c, S')"
  shows "validation_ok (validateEnvelope D env) \<and> hashEnvelope D env = Inr h \<and>
         (\<exists>auth pd. resolvePrereqs S rt env = PrereqsOk auth pd \<and>
            enforceTraceContinuity rt env auth pd = None \<and> enforceAuthorization rt pd = None) \<and>
         S' = putAccepted S \<lparr>envelope_hash = h, record_type = rt, envelope = env, canonical_json = c\<rparr>"
  using assms
  by (simp add: commit_action_def
      split: if_splits validation.splits sum.splits prereqs.splits option.splits prod.splits)









lemma integrity_loop_ok:
  "\<forall>art \<in> set arts. schemaAndHashCheck D (envelope art) (envelope_hash art) = Inr None \<Longrightarrow>
   integrity_loop D arts = Inr None"
  by (induction arts) auto

lemma chain_loop_ok:
  "\<forall>art \<in> set arts. chain_check S (record_type art) (envelope art) = None \<Longrightarrow>
   chain_loop S arts = None"
  by (induction arts) auto








lemma chain_store_replay:
  "invariantReplay sample_deps chain_store ''t1'' False ''1970-01-01T00:00:00.000Z'' False =
   Inr ((sample_pass_record, None), chain_store)"
  by code_simp


subsection \<open>Forensic replay refines invariant replay\<close>

lemma forensic_loop_step:
  assumes "forensic_loop D sim (ref # refs) = Inr None"
  shows "validation_ok (validateEnvelope D (envelope ref)) \<and>
         hashEnvelope D (envelope ref) = Inr (envelope_hash ref) \<and>
         (\<exists>h c sim'. commit_action D sim (record_type ref) (envelope_hash ref) (envelope ref) =
              Inr (Accepted h c, sim') \<and> forensic_loop D sim' refs = Inr None)"
  using assms
  by (simp split: validation.splits sum.splits if_splits prod.splits commit_result.splits)

lemma extends_put_known:
  assumes e: "extends sim S"
    and k: "getAccepted S (JStr h) = Some a" "envelope a = env"
  shows "extends (putAccepted sim \<lparr>envelope_hash = h, record_type = rt, envelope = env,
                                    canonical_json = c\<rparr>) S"
  unfolding extends_def
proof (intro allI impI)
  fix x b
  assume b: "getAccepted (putAccepted sim \<lparr>envelope_hash = h, record_type = rt, envelope = env,
                                    canonical_json = c\<rparr>) x = Some b"
  then obtain j where x: "x = JStr j"
    by (auto simp: getAccepted_def split: json.splits)
  show "\<exists>a'. getAccepted S x = Some a' \<and> json_eq (envelope b) (envelope a')"
  proof (cases "j = h")
    case True
    with b x have "envelope b = env"
      by (auto simp: getAccepted_def putAccepted_def update_conv')
    with k True x show ?thesis by (simp add: json_eq_refl)
  next
    case False
    with b x have "getAccepted sim x = Some b"
      by (simp add: getAccepted_def putAccepted_def update_conv')
    with e show ?thesis unfolding extends_def by blast
  qed
qed

lemma extends_empty: "extends empty_store S"
  by (simp add: extends_def getAccepted_def empty_store_def split: json.splits)

lemma forensic_loop_sound:
  assumes "forensic_loop D sim refs = Inr None"
    and "extends sim S"
    and "\<forall>ref \<in> set refs. \<exists>a. getAccepted S (JStr (envelope_hash ref)) = Some a \<and>
           envelope a = envelope ref"
  shows "\<forall>ref \<in> set refs.
           schemaAndHashCheck D (envelope ref) (envelope_hash ref) = Inr None \<and>
           chain_check S (record_type ref) (envelope ref) = None"
  using assms
proof (induction refs arbitrary: sim)
  case Nil
  show ?case by simp
next
  case (Cons ref refs)
  from forensic_loop_step [OF Cons.prems(1)]
  obtain h c sim' where v: "validation_ok (validateEnvelope D (envelope ref))"
    and hh: "hashEnvelope D (envelope ref) = Inr (envelope_hash ref)"
    and cm: "commit_action D sim (record_type ref) (envelope_hash ref) (envelope ref) =
               Inr (Accepted h c, sim')"
    and rest: "forensic_loop D sim' refs = Inr None"
    by blast
  from commit_accepted_shape [OF cm] hh
  obtain auth pd where pre: "resolvePrereqs sim (record_type ref) (envelope ref) = PrereqsOk auth pd"
    "enforceTraceContinuity (record_type ref) (envelope ref) auth pd = None"
    "enforceAuthorization (record_type ref) pd = None"
    and s': "sim' = putAccepted sim \<lparr>envelope_hash = envelope_hash ref,
               record_type = record_type ref, envelope = envelope ref, canonical_json = c\<rparr>"
    by auto
  from pre have "chain_check sim (record_type ref) (envelope ref) = None"
    by (rule commit_checks_chain_check)
  then have cc: "chain_check S (record_type ref) (envelope ref) = None"
    using Cons.prems(2) by (rule chain_check_mono)
  from Cons.prems(3) obtain a where a: "getAccepted S (JStr (envelope_hash ref)) = Some a"
    "envelope a = envelope ref" by auto
  have "extends sim' S" unfolding s' using Cons.prems(2) a by (rule extends_put_known)
  moreover from Cons.prems(3) have "\<forall>r \<in> set refs.
      \<exists>a. getAccepted S (JStr (envelope_hash r)) = Some a \<and> envelope a = envelope r" by simp
  ultimately have ih: "\<forall>r \<in> set refs.
           schemaAndHashCheck D (envelope r) (envelope_hash r) = Inr None \<and>
           chain_check S (record_type r) (envelope r) = None"
    using Cons.IH [OF rest] by blast
  from v hh have "schemaAndHashCheck D (envelope ref) (envelope_hash ref) = Inr None"
    by (simp add: schemaAndHashCheck_def)
  with cc ih show ?case by simp
qed

lemma forensic_return_result:
  "forensic_return D L emit_result is_ok rr = Inr (out, L') \<Longrightarrow> replay_result out = rr"
  by (auto simp: forensic_return_def split: if_splits sum.splits prod.splits)

lemma buildReplayResult_result:
  "get_field (buildReplayResult rtype t hs outcome fc fk now det) ''result'' = JStr outcome"
  by (simp add: buildReplayResult_def)

lemma forensic_pass_loop:
  assumes f: "forensicReplay D S t emit_result now_ms = Inr (out, S1)"
    and p: "get_field (replay_result out) ''result'' = JStr ''pass''"
  shows "resolved_accepted (ReplayIndex_resolve S t) \<noteq> [] \<and>
         forensic_loop D empty_store (resolved_accepted (ReplayIndex_resolve S t)) = Inr None"
proof -
  let ?refs = "resolved_accepted (ReplayIndex_resolve S t)"
  have ne: "?refs \<noteq> []"
  proof
    assume "?refs = []"
    with f have "forensic_return D S emit_result False
          (buildReplayResult ''forensic'' t [] ''fail'' (JStr ''REPLAY_NOT_FOUND'')
             (JStr ''replay.not_found'') now_ms (JObj [])) = Inr (out, S1)"
      by (simp add: forensicReplay_def Let_def)
    from forensic_return_result [OF this] p show False
      by (simp add: buildReplayResult_result)
  qed
  moreover have "forensic_loop D empty_store ?refs = Inr None"
  proof (cases "forensic_loop D empty_store ?refs")
    case (Inl e)
    with f ne show ?thesis by (simp add: forensicReplay_def Let_def)
  next
    case (Inr r)
    show ?thesis
    proof (cases r)
      case None
      with Inr show ?thesis by simp
    next
      case (Some x)
      obtain fc fk det where x: "x = (fc, fk, det)" by (cases x) 
      with f ne Inr Some have "forensic_return D S emit_result False
               (buildReplayResult ''forensic'' t (map envelope_hash ?refs) ''fail''
                  (JStr fc) (JStr fk) now_ms det) = Inr (out, S1)"
        by (simp add: forensicReplay_def Let_def)
      from forensic_return_result [OF this] p show ?thesis
        by (simp add: buildReplayResult_result)
    qed
  qed
  ultimately show ?thesis by simp
qed


text \<open>
  C6: for every store (its accepted namespace a map, that is, with distinct keys) and
  every trace identifier, if \<open>forensicReplay\<close> returns a result record with
  \<open>result = 'pass'\<close>, then \<open>invariantReplay\<close> over the same store and trace returns a
  record with \<open>result = 'pass'\<close> as well.
\<close>

theorem C6_forensic_refines_invariant:
  assumes d: "distinct (map fst (accepted S))"
    and f: "forensicReplay D S t emit_result now_ms = Inr (out, S1)"
    and p: "get_field (replay_result out) ''result'' = JStr ''pass''"
  shows "\<exists>record sha S2.
           invariantReplay D S t False clock persist = Inr ((record, sha), S2) \<and>
           result record = ''pass''"
proof -
  let ?refs = "resolved_accepted (ReplayIndex_resolve S t)"
  from forensic_pass_loop [OF f p] have ne: "?refs \<noteq> []"
    and loop: "forensic_loop D empty_store ?refs = Inr None" by simp_all
  let ?arts = "trace_artifacts S t False"
  let ?ord = "js_sort compareArtifacts ?arts"
  from ne have tn: "\<not> (t = [] \<or> ?arts = [])"
    by (auto simp: ReplayIndex_resolve_def resolveTraceChain_unfold)
  then have refs: "?refs = ?ord"
    by (simp add: ReplayIndex_resolve_def resolveTraceChain_unfold Let_def)
  have known: "\<forall>ref \<in> set ?ord. \<exists>a. getAccepted S (JStr (envelope_hash ref)) = Some a \<and>
           envelope a = envelope ref"
  proof
    fix ref assume "ref \<in> set ?ord"
    then have "ref \<in> set ?arts" by (simp add: set_js_sort)
    then obtain q where q: "q \<in> set (accepted S)" and a: "ref = accepted_entry q"
      by (auto simp: trace_artifacts_def ledger_entries_def)
    from q d have "map_of (accepted S) (fst q) = Some (snd q)" by simp
    with a show "\<exists>a. getAccepted S (JStr (envelope_hash ref)) = Some a \<and>
           envelope a = envelope ref"
      by (simp add: getAccepted_def accepted_entry_def)
  qed
  from loop refs have "forensic_loop D empty_store ?ord = Inr None" by simp
  from forensic_loop_sound [OF this extends_empty known]
  have i: "integrity_loop D ?ord = Inr None" and c: "chain_loop S ?ord = None"
    by (simp_all add: integrity_loop_ok chain_loop_ok)
  let ?rec = "\<lparr>replay_type = ''invariant'', target_trace_id = t,
                input_envelope_hashes = map envelope_hash ?ord, result = ''pass'',
                generated_at = clock, reference_trace_id = None, failure_class = None\<rparr>"
  have "invariantReplay D S t False clock persist = finalize D S ?rec persist"
    using tn i c by (simp add: invariantReplay_def resolveTraceChain_unfold Let_def)
  moreover obtain sha S' where "finalize D S ?rec persist = Inr ((?rec, sha), S')"
    using finalize_ok by blast
  ultimately show ?thesis by auto
qed

lemma sample_forensic:
  "forensicReplay sample_deps chain_store ''t1'' False 0 = Inr (sample_forensic_outcome, chain_store)"
  by code_simp

lemma sample_forensic_pass:
  "get_field (replay_result sample_forensic_outcome) ''result'' = JStr ''pass''"
  by code_simp

lemma chain_store_distinct: "distinct (map fst (accepted chain_store))"
  by code_simp

theorem C6_forensic_refines_invariant_witness:
  "distinct (map fst (accepted chain_store)) \<and>
   forensicReplay sample_deps chain_store ''t1'' False 0 =
     Inr (sample_forensic_outcome, chain_store) \<and>
   get_field (replay_result sample_forensic_outcome) ''result'' = JStr ''pass'' \<and>
   invariantReplay sample_deps chain_store ''t1'' False ''1970-01-01T00:00:00.000Z'' False =
     Inr ((sample_pass_record, None), chain_store) \<and>
   result sample_pass_record = ''pass''"
proof -
  from C6_forensic_refines_invariant [OF chain_store_distinct sample_forensic sample_forensic_pass,
      of "''1970-01-01T00:00:00.000Z''" False]
  obtain r sha S2 where
    "invariantReplay sample_deps chain_store ''t1'' False ''1970-01-01T00:00:00.000Z'' False =
       Inr ((r, sha), S2)"
    and p: "result r = ''pass''"
    by blast
  with chain_store_replay have "r = sample_pass_record" by simp
  with p have "result sample_pass_record = ''pass''" by simp
  with chain_store_distinct sample_forensic sample_forensic_pass chain_store_replay
  show ?thesis by blast
qed

end
